theory Spec2Isabelle
  imports Complex_Main "HOL-Library.AList" "HOL-Library.Multiset"
begin

section \<open>JavaScript values used by the pages\<close>

subsection \<open>Strings\<close>

text \<open>
  Strings are lists of code units; the alphabet modelled is that of the first 256
  code units. \<open>String.prototype.trim\<close> removes the white space and line terminators
  of ECMAScript from both ends; within this alphabet they are TAB, LF, VT, FF, CR,
  SPACE and the no-break space.
\<close>

definition is_white_space :: "char \<Rightarrow> bool" where
  "is_white_space c =
     (c = CHR 0x09 \<or> c = CHR 0x0A \<or> c = CHR 0x0B \<or> c = CHR 0x0C \<or> c = CHR 0x0D \<or> c = CHR '' ''
      \<or> c = CHR 0xA0)"

definition trim :: "string \<Rightarrow> string" where
  "trim s = rev (dropWhile is_white_space (rev (dropWhile is_white_space s)))"


text \<open>\<open>Number.prototype.toString\<close> on a natural number: its decimal digits.\<close>

definition digit_char :: "nat \<Rightarrow> char" where
  "digit_char d = char_of (48 + d)"

fun dec :: "nat \<Rightarrow> string" where
  "dec n = (if n < 10 then [digit_char n] else dec (n div 10) @ [digit_char (n mod 10)])"

declare dec.simps [simp del]

subsection \<open>Plain objects used as dictionaries\<close>

text \<open>
  An object created by \<open>{}\<close> is the list of its own properties in creation order.
  Reading a property that the object does not own falls through to
  \<open>Object.prototype\<close>. Enumeration (\<open>Object.keys\<close>, \<open>Object.entries\<close>, spread)
  lists the own keys that are array indices first, in ascending numeric order, and
  then the other keys in creation order.
\<close>

type_synonym 'v jsobj = "(string \<times> 'v) list"

definition native_function :: "string \<Rightarrow> string" where
  "native_function name = ''function '' @ name @ ''() { [native code] }''"

text \<open>
  The properties of \<open>Object.prototype\<close>, each with the string its value converts to
  (the text of a built-in function is written as V8 and JavaScriptCore print it).
\<close>

definition object_prototype :: "(string \<times> string) list" where
  "object_prototype =
     [(''constructor'', native_function ''Object''),
      (''__defineGetter__'', native_function ''__defineGetter__''),
      (''__defineSetter__'', native_function ''__defineSetter__''),
      (''hasOwnProperty'', native_function ''hasOwnProperty''),
      (''__lookupGetter__'', native_function ''__lookupGetter__''),
      (''__lookupSetter__'', native_function ''__lookupSetter__''),
      (''isPrototypeOf'', native_function ''isPrototypeOf''),
      (''propertyIsEnumerable'', native_function ''propertyIsEnumerable''),
      (''toString'', native_function ''toString''),
      (''valueOf'', native_function ''valueOf''),
      (''toLocaleString'', native_function ''toLocaleString''),
      (''__proto__'', ''[object Object]'')]"

datatype 'v lookup = Own 'v | Inherited string | Undefined

definition js_get :: "'v jsobj \<Rightarrow> string \<Rightarrow> 'v lookup" where
  "js_get obj k =
     (case map_of obj k of
        Some v \<Rightarrow> Own v
      | None \<Rightarrow> (case map_of object_prototype k of Some s \<Rightarrow> Inherited s | None \<Rightarrow> Undefined))"

text \<open>
  \<open>obj[k] = v\<close> for a primitive \<open>v\<close>: the inherited setter of \<open>__proto__\<close> ignores a
  primitive; every other key becomes (or stays) an own property.
\<close>

definition js_set :: "string \<Rightarrow> 'v \<Rightarrow> 'v jsobj \<Rightarrow> 'v jsobj" where
  "js_set k v obj =
     (if k = ''__proto__'' \<and> map_of obj k = None then obj else AList.update k v obj)"

definition is_digit :: "char \<Rightarrow> bool" where
  "is_digit c = (48 \<le> (of_char c :: int) \<and> (of_char c :: int) \<le> 57)"

definition digit_val :: "char \<Rightarrow> int" where
  "digit_val c = of_char c - 48"

definition dec_val :: "string \<Rightarrow> int" where
  "dec_val s = foldl (\<lambda>n c. 10 * n + digit_val c) 0 s"

definition is_array_index :: "string \<Rightarrow> bool" where
  "is_array_index k =
     (k \<noteq> [] \<and> list_all is_digit k \<and> (k = ''0'' \<or> hd k \<noteq> CHR ''0'') \<and> dec_val k < 2 ^ 32 - 1)"

definition obj_entries :: "'v jsobj \<Rightarrow> (string \<times> 'v) list" where
  "obj_entries obj =
     sort_key (\<lambda>p. dec_val (fst p)) (filter (\<lambda>p. is_array_index (fst p)) obj)
       @ filter (\<lambda>p. \<not> is_array_index (fst p)) obj"

definition obj_keys :: "'v jsobj \<Rightarrow> string list" where
  "obj_keys obj = map fst (obj_entries obj)"

subsection \<open>Numbers\<close>

text \<open>
  A finite Number is the rational it denotes; \<open>binary64\<close> rounds a rational to the
  nearest double, ties to the even significand. The exponent range is not bounded
  here (no overflow above \<open>2^1024\<close>, no gradual underflow), and zero has no sign.
\<close>

datatype jsnum = NaN | PosInf | NegInf | Num rat

function bit_length :: "int \<Rightarrow> nat" where
  "bit_length n = (if n \<le> 0 then 0 else Suc (bit_length (n div 2)))"
  by pat_completeness auto
termination
  by (relation "measure nat") auto

declare bit_length.simps [simp del]

definition round_half_even :: "rat \<Rightarrow> int" where
  "round_half_even x =
     (let f = \<lfloor>x\<rfloor>; d = x - of_int f in
      if d < 1 / 2 then f else if 1 / 2 < d then f + 1 else if even f then f else f + 1)"

text \<open>The exponent \<open>t\<close> that scales \<open>\<bar>x\<bar>\<close> into the 53-bit range \<open>[2^52, 2^53)\<close>.\<close>

definition binade :: "rat \<Rightarrow> int" where
  "binade x =
     (let p = fst (quotient_of \<bar>x\<bar>); q = snd (quotient_of \<bar>x\<bar>);
          t = 53 - (int (bit_length p) - int (bit_length q))
      in if \<bar>x\<bar> * 2 powi t < 2 ^ 53 then t else t - 1)"

definition binary64 :: "rat \<Rightarrow> rat" where
  "binary64 x =
     (if x = 0 then 0
      else of_int (round_half_even (x * 2 powi binade x)) / 2 powi binade x)"

fun js_add :: "jsnum \<Rightarrow> jsnum \<Rightarrow> jsnum" where
  "js_add (Num a) (Num b) = Num (binary64 (a + b))"
| "js_add NaN y = NaN"
| "js_add x NaN = NaN"
| "js_add PosInf NegInf = NaN"
| "js_add NegInf PosInf = NaN"
| "js_add PosInf y = PosInf"
| "js_add NegInf y = NegInf"
| "js_add x PosInf = PosInf"
| "js_add x NegInf = NegInf"

fun js_div :: "jsnum \<Rightarrow> jsnum \<Rightarrow> jsnum" where
  "js_div (Num a) (Num b) =
     (if b = 0 then (if a = 0 then NaN else if 0 < a then PosInf else NegInf)
      else Num (binary64 (a / b)))"
| "js_div NaN y = NaN"
| "js_div x NaN = NaN"
| "js_div (Num a) y = Num 0"
| "js_div PosInf (Num b) = (if 0 \<le> b then PosInf else NegInf)"
| "js_div NegInf (Num b) = (if 0 \<le> b then NegInf else PosInf)"
| "js_div x y = NaN"

fun js_mul :: "jsnum \<Rightarrow> jsnum \<Rightarrow> jsnum" where
  "js_mul (Num a) (Num b) = Num (binary64 (a * b))"
| "js_mul NaN y = NaN"
| "js_mul x NaN = NaN"
| "js_mul (Num a) PosInf = (if a = 0 then NaN else if 0 < a then PosInf else NegInf)"
| "js_mul (Num a) NegInf = (if a = 0 then NaN else if 0 < a then NegInf else PosInf)"
| "js_mul PosInf (Num b) = (if b = 0 then NaN else if 0 < b then PosInf else NegInf)"
| "js_mul NegInf (Num b) = (if b = 0 then NaN else if 0 < b then NegInf else PosInf)"
| "js_mul PosInf PosInf = PosInf"
| "js_mul NegInf NegInf = PosInf"
| "js_mul x y = NegInf"

text \<open>The Number of a length or a count.\<close>

definition num_of_nat :: "nat \<Rightarrow> jsnum" where
  "num_of_nat n = Num (binary64 (of_nat n))"

text \<open>
  \<open>parseInt\<close> with no radix: leading white space, a sign, a \<open>0x\<close> prefix, then the
  longest run of digits; \<open>NaN\<close> when there is none.
\<close>

definition is_hex_digit :: "char \<Rightarrow> bool" where
  "is_hex_digit c =
     (is_digit c \<or> (65 \<le> (of_char c :: int) \<and> (of_char c :: int) \<le> 70)
                \<or> (97 \<le> (of_char c :: int) \<and> (of_char c :: int) \<le> 102))"

definition hex_digit_val :: "char \<Rightarrow> int" where
  "hex_digit_val c =
     (if is_digit c then of_char c - 48
      else if (of_char c :: int) \<le> 70 then of_char c - 55 else of_char c - 87)"

definition hex_val :: "string \<Rightarrow> int" where
  "hex_val s = foldl (\<lambda>n c. 16 * n + hex_digit_val c) 0 s"

definition parseInt :: "string \<Rightarrow> jsnum" where
  "parseInt s =
     (let s1 = dropWhile is_white_space s;
          negative = (take 1 s1 = ''-'');
          s2 = (if take 1 s1 = ''+'' \<or> take 1 s1 = ''-'' then drop 1 s1 else s1);
          hex = (take 2 s2 = ''0x'' \<or> take 2 s2 = ''0X'');
          s3 = (if hex then drop 2 s2 else s2);
          z = takeWhile (if hex then is_hex_digit else is_digit) s3;
          mathInt = (if hex then hex_val z else dec_val z)
      in if z = [] then NaN
         else Num (binary64 (of_int (if negative then - mathInt else mathInt))))"

text \<open>
  \<open>toFixed(1)\<close>: the integer \<open>n\<close> nearest to \<open>10 * \<bar>x\<bar>\<close> (the larger one on a tie),
  printed with one digit after the point. (From \<open>10^21\<close> on the source prints the
  exponential notation of \<open>Number::toString\<close> instead, which is not modelled.)
\<close>

fun toFixed1 :: "jsnum \<Rightarrow> string" where
  "toFixed1 NaN = ''NaN''"
| "toFixed1 PosInf = ''Infinity''"
| "toFixed1 NegInf = ''-Infinity''"
| "toFixed1 (Num x) =
     (let n = nat \<lfloor>10 * \<bar>x\<bar> + 1 / 2\<rfloor>
      in (if x < 0 then ''-'' else []) @ dec (n div 10) @ ''.'' @ [digit_char (n mod 10)])"

section \<open>The data store\<close>

text \<open>
  The tables follow the SQL schema of the repository: generated identifiers (drawn
  from a counter here, where the schema draws random UUIDs), the \<open>CHECK\<close>
  constraints on \<open>surveys.status\<close> and \<open>questions.type\<close>, and the foreign keys. A
  call on a table listed in \<open>down\<close> fails. Every call is recorded in \<open>calls\<close>.
  Timestamps are left out.
\<close>

datatype table_name = Surveys | Questions | Responses | Answers

datatype store_call = Select table_name | Insert table_name

datatype store_error = Unavailable | NoRows | ManyRows | Rejected

record survey_row =
  sv_id :: string
  sv_title :: string
  sv_description :: "string option"
  sv_status :: string

record question_row =
  qu_id :: string
  qu_survey_id :: string
  qu_type :: string
  qu_text :: string
  qu_options :: "string list option"
  qu_required :: bool
  qu_order_index :: int

record response_row =
  rs_id :: string
  rs_survey_id :: string

record answer_row =
  an_id :: string
  an_response_id :: string
  an_question_id :: string
  an_answer_value :: string

record store =
  surveys :: "survey_row list"
  questions :: "question_row list"
  responses :: "response_row list"
  answers :: "answer_row list"
  next_id :: nat
  down :: "table_name list"
  calls :: "store_call list"

definition gen_random_uuid :: "nat \<Rightarrow> string" where
  "gen_random_uuid n = ''uuid-'' @ dec n"

definition log_call :: "store_call \<Rightarrow> store \<Rightarrow> store" where
  "log_call c st = st\<lparr>calls := calls st @ [c]\<rparr>"

definition survey_statuses :: "string list" where
  "survey_statuses = [''draft'', ''published'', ''closed'', ''archived'']"

definition question_types :: "string list" where
  "question_types = [''multiple_choice'', ''rating'', ''short_text'', ''long_text'', ''dropdown'']"

text \<open>\<open>.single()\<close>: exactly one row, or an error.\<close>

fun single :: "'a list \<Rightarrow> store_error + 'a" where
  "single [] = Inl NoRows"
| "single [x] = Inr x"
| "single (x # y # ys) = Inl ManyRows"

subsection \<open>Inserts\<close>

record survey_new =
  ns_title :: string
  ns_description :: string
  ns_status :: string

record question_new =
  nq_survey_id :: string
  nq_type :: string
  nq_text :: string
  nq_options :: "string list option"
  nq_required :: bool
  nq_order_index :: int

record answer_new =
  na_response_id :: string
  na_question_id :: string
  na_answer_value :: string

definition insert_survey :: "survey_new \<Rightarrow> store \<Rightarrow> (store_error + survey_row) \<times> store" where
  "insert_survey n st0 =
     (let st = log_call (Insert Surveys) st0 in
      if List.member (down st) Surveys then (Inl Unavailable, st)
      else if \<not> List.member survey_statuses (ns_status n) then (Inl Rejected, st)
      else
        let row = \<lparr>sv_id = gen_random_uuid (next_id st), sv_title = ns_title n,
                   sv_description = Some (ns_description n), sv_status = ns_status n\<rparr>
        in (Inr row, st\<lparr>surveys := surveys st @ [row], next_id := next_id st + 1\<rparr>))"

definition question_of_new :: "nat \<Rightarrow> nat \<times> question_new \<Rightarrow> question_row" where
  "question_of_new base p =
     \<lparr>qu_id = gen_random_uuid (base + fst p), qu_survey_id = nq_survey_id (snd p),
      qu_type = nq_type (snd p), qu_text = nq_text (snd p), qu_options = nq_options (snd p),
      qu_required = nq_required (snd p), qu_order_index = nq_order_index (snd p)\<rparr>"

definition insert_questions :: "question_new list \<Rightarrow> store \<Rightarrow> (store_error + unit) \<times> store" where
  "insert_questions ns st0 =
     (let st = log_call (Insert Questions) st0 in
      if List.member (down st) Questions then (Inl Unavailable, st)
      else if list_ex (\<lambda>n. \<not> (List.member question_types (nq_type n)
                              \<and> List.member (map sv_id (surveys st)) (nq_survey_id n))) ns
        then (Inl Rejected, st)
      else
        (Inr (), st\<lparr>questions := questions st @ map (question_of_new (next_id st)) (enumerate 0 ns),
                    next_id := next_id st + length ns\<rparr>))"

definition insert_response :: "string \<Rightarrow> store \<Rightarrow> (store_error + response_row) \<times> store" where
  "insert_response survey_id st0 =
     (let st = log_call (Insert Responses) st0 in
      if List.member (down st) Responses then (Inl Unavailable, st)
      else if \<not> List.member (map sv_id (surveys st)) survey_id then (Inl Rejected, st)
      else
        let row = \<lparr>rs_id = gen_random_uuid (next_id st), rs_survey_id = survey_id\<rparr>
        in (Inr row, st\<lparr>responses := responses st @ [row], next_id := next_id st + 1\<rparr>))"

definition answer_of_new :: "nat \<Rightarrow> nat \<times> answer_new \<Rightarrow> answer_row" where
  "answer_of_new base p =
     \<lparr>an_id = gen_random_uuid (base + fst p), an_response_id = na_response_id (snd p),
      an_question_id = na_question_id (snd p), an_answer_value = na_answer_value (snd p)\<rparr>"

definition insert_answers :: "answer_new list \<Rightarrow> store \<Rightarrow> (store_error + unit) \<times> store" where
  "insert_answers ns st0 =
     (let st = log_call (Insert Answers) st0 in
      if List.member (down st) Answers then (Inl Unavailable, st)
      else if list_ex (\<lambda>n. \<not> (List.member (map rs_id (responses st)) (na_response_id n)
                              \<and> List.member (map qu_id (questions st)) (na_question_id n))) ns
        then (Inl Rejected, st)
      else
        (Inr (), st\<lparr>answers := answers st @ map (answer_of_new (next_id st)) (enumerate 0 ns),
                    next_id := next_id st + length ns\<rparr>))"

subsection \<open>Queries\<close>

definition select_survey :: "string \<Rightarrow> store \<Rightarrow> (store_error + survey_row) \<times> store" where
  "select_survey i st0 =
     (let st = log_call (Select Surveys) st0 in
      if List.member (down st) Surveys then (Inl Unavailable, st)
      else (single (filter (\<lambda>s. sv_id s = i) (surveys st)), st))"

definition select_published_survey :: "string \<Rightarrow> store \<Rightarrow> (store_error + survey_row) \<times> store" where
  "select_published_survey i st0 =
     (let st = log_call (Select Surveys) st0 in
      if List.member (down st) Surveys then (Inl Unavailable, st)
      else (single (filter (\<lambda>s. sv_id s = i \<and> sv_status s = ''published'') (surveys st)), st))"

definition select_questions :: "string \<Rightarrow> store \<Rightarrow> (store_error + question_row list) \<times> store" where
  "select_questions i st0 =
     (let st = log_call (Select Questions) st0 in
      if List.member (down st) Questions then (Inl Unavailable, st)
      else (Inr (sort_key qu_order_index (filter (\<lambda>q. qu_survey_id q = i) (questions st))), st))"

definition select_response_ids :: "string \<Rightarrow> store \<Rightarrow> (store_error + string list) \<times> store" where
  "select_response_ids i st0 =
     (let st = log_call (Select Responses) st0 in
      if List.member (down st) Responses then (Inl Unavailable, st)
      else (Inr (map rs_id (filter (\<lambda>r. rs_survey_id r = i) (responses st))), st))"

record answer =
  question_id :: string
  answer_value :: string

definition select_answers_in :: "string list \<Rightarrow> store \<Rightarrow> (store_error + answer list) \<times> store" where
  "select_answers_in ids st0 =
     (let st = log_call (Select Answers) st0 in
      if List.member (down st) Answers then (Inl Unavailable, st)
      else (Inr (map (\<lambda>a. \<lparr>question_id = an_question_id a, answer_value = an_answer_value a\<rparr>)
                  (filter (\<lambda>a. List.member ids (an_response_id a)) (answers st))), st))"

section \<open>What a page shows besides its state\<close>

datatype toast = ToastError string | ToastSuccess string

section \<open>CreateSurvey.tsx\<close>

record question =
  q_type :: string
  q_text :: string
  q_options :: "string list option"
  q_required :: bool
  q_order_index :: int

datatype save_status = Draft | Published

fun status_string :: "save_status \<Rightarrow> string" where
  "status_string Draft = ''draft''"
| "status_string Published = ''published''"

record create_survey =
  cs_title :: string
  cs_description :: string
  cs_questions :: "question list"
  cs_saving :: bool
  cs_toasts :: "toast list"
  cs_console :: "store_error list"
  cs_navigated :: "string list"

definition cs_toast :: "toast \<Rightarrow> create_survey \<Rightarrow> create_survey" where
  "cs_toast t v = v\<lparr>cs_toasts := cs_toasts v @ [t]\<rparr>"

definition cs_failed :: "store_error \<Rightarrow> create_survey \<Rightarrow> create_survey" where
  "cs_failed e v =
     (cs_toast (ToastError ''Failed to save survey'') v)
       \<lparr>cs_console := cs_console v @ [e], cs_saving := False\<rparr>"

definition questionsToInsert :: "string \<Rightarrow> question list \<Rightarrow> question_new list" where
  "questionsToInsert survey_id qs =
     map (\<lambda>q. \<lparr>nq_survey_id = survey_id, nq_type = q_type q, nq_text = q_text q,
               nq_options = (case q_options q of
                               Some os \<Rightarrow> if length os > 0 then Some os else None
                             | None \<Rightarrow> None),
               nq_required = q_required q, nq_order_index = q_order_index q\<rparr>) qs"

definition saveSurvey :: "save_status \<Rightarrow> create_survey \<Rightarrow> store \<Rightarrow> create_survey \<times> store" where
  "saveSurvey status v st =
     (if trim (cs_title v) = [] then (cs_toast (ToastError ''Please enter a survey title'') v, st)
      else if list_ex (\<lambda>q. trim (q_text q) = []) (cs_questions v)
        then (cs_toast (ToastError ''All questions must have text'') v, st)
      else
        (case insert_survey \<lparr>ns_title = cs_title v, ns_description = cs_description v,
                             ns_status = status_string status\<rparr> st of
           (Inl surveyError, st1) \<Rightarrow> (cs_failed surveyError v, st1)
         | (Inr survey, st1) \<Rightarrow>
             (case insert_questions (questionsToInsert (sv_id survey) (cs_questions v)) st1 of
                (Inl questionsError, st2) \<Rightarrow> (cs_failed questionsError v, st2)
              | (Inr u, st2) \<Rightarrow>
                  ((cs_toast (ToastSuccess (''Survey '' @ (if status = Draft then ''saved as draft''
                                                          else ''published'') @ '' successfully!'')) v)
                     \<lparr>cs_navigated := cs_navigated v @ [''/''], cs_saving := False\<rparr>, st2))))"

section \<open>TakeSurvey.tsx\<close>

record take_survey =
  ts_id :: string
  ts_survey :: "survey_row option"
  ts_questions :: "question_row list"
  ts_answers :: "string jsobj"
  ts_loading :: bool
  ts_submitting :: bool
  ts_submitted :: bool
  ts_toasts :: "toast list"
  ts_console :: "store_error list"

definition ts_toast :: "toast \<Rightarrow> take_survey \<Rightarrow> take_survey" where
  "ts_toast t v = v\<lparr>ts_toasts := ts_toasts v @ [t]\<rparr>"

definition ts_not_found :: "store_error \<Rightarrow> take_survey \<Rightarrow> take_survey" where
  "ts_not_found e v =
     (ts_toast (ToastError ''Survey not found or unavailable'') v)
       \<lparr>ts_console := ts_console v @ [e], ts_loading := False\<rparr>"

text \<open>
  The two queries are issued together and both results are awaited; the survey's
  error is looked at first.
\<close>

definition fetchSurvey :: "take_survey \<Rightarrow> store \<Rightarrow> take_survey \<times> store" where
  "fetchSurvey v st =
     (case select_published_survey (ts_id v) st of (surveyRes, st1) \<Rightarrow>
      case select_questions (ts_id v) st1 of (questionsRes, st2) \<Rightarrow>
      (case surveyRes of
         Inl surveyError \<Rightarrow> (ts_not_found surveyError v, st2)
       | Inr surveyData \<Rightarrow>
           (case questionsRes of
              Inl questionsError \<Rightarrow> (ts_not_found questionsError v, st2)
            | Inr questionsData \<Rightarrow>
                (v\<lparr>ts_survey := Some surveyData, ts_questions := questionsData,
                   ts_loading := False\<rparr>, st2))))"

text \<open>\<open>setAnswers({ ...answers, [question.id]: value })\<close>.\<close>

definition setAnswer :: "string \<Rightarrow> string \<Rightarrow> take_survey \<Rightarrow> take_survey" where
  "setAnswer questionId val v =
     v\<lparr>ts_answers := AList.update questionId val (obj_entries (ts_answers v))\<rparr>"

text \<open>Truthiness of \<open>answers[q.id]\<close>.\<close>

fun truthy :: "string lookup \<Rightarrow> bool" where
  "truthy (Own s) = (s \<noteq> [])"
| "truthy (Inherited s) = True"
| "truthy Undefined = False"

definition ts_failed :: "store_error \<Rightarrow> take_survey \<Rightarrow> take_survey" where
  "ts_failed e v =
     (ts_toast (ToastError ''Failed to submit survey'') v)
       \<lparr>ts_console := ts_console v @ [e], ts_submitting := False\<rparr>"

definition answersToInsert :: "string \<Rightarrow> string jsobj \<Rightarrow> answer_new list" where
  "answersToInsert response_id as =
     map (\<lambda>p. \<lparr>na_response_id = response_id, na_question_id = fst p, na_answer_value = snd p\<rparr>)
       (obj_entries as)"

definition missingAnswers :: "take_survey \<Rightarrow> question_row list" where
  "missingAnswers v =
     filter (\<lambda>q. \<not> truthy (js_get (ts_answers v) (qu_id q))) (filter qu_required (ts_questions v))"

definition handleSubmit :: "take_survey \<Rightarrow> store \<Rightarrow> take_survey \<times> store" where
  "handleSubmit v st =
     (if length (missingAnswers v) > 0
        then (ts_toast (ToastError ''Please answer all required questions'') v, st)
      else
        (case insert_response (ts_id v) st of
           (Inl responseError, st1) \<Rightarrow> (ts_failed responseError v, st1)
         | (Inr response, st1) \<Rightarrow>
             (case insert_answers (answersToInsert (rs_id response) (ts_answers v)) st1 of
                (Inl answersError, st2) \<Rightarrow> (ts_failed answersError v, st2)
              | (Inr u, st2) \<Rightarrow>
                  ((ts_toast (ToastSuccess ''Survey submitted successfully!'') v)
                     \<lparr>ts_submitted := True, ts_submitting := False\<rparr>, st2))))"

definition progress :: "take_survey \<Rightarrow> jsnum" where
  "progress v =
     js_mul (js_div (num_of_nat (length (obj_keys (ts_answers v))))
                    (num_of_nat (length (ts_questions v))))
            (Num 100)"

section \<open>SurveyResults.tsx\<close>

record survey_results =
  sr_id :: string
  sr_survey :: "survey_row option"
  sr_questions :: "question_row list"
  sr_answers :: "answer list"
  sr_responseCount :: nat
  sr_loading :: bool
  sr_toasts :: "toast list"
  sr_console :: "store_error list"

definition sr_toast :: "toast \<Rightarrow> survey_results \<Rightarrow> survey_results" where
  "sr_toast t v = v\<lparr>sr_toasts := sr_toasts v @ [t]\<rparr>"

definition sr_failed :: "store_error \<Rightarrow> survey_results \<Rightarrow> survey_results" where
  "sr_failed e v =
     (sr_toast (ToastError ''Failed to load survey results'') v)
       \<lparr>sr_console := sr_console v @ [e], sr_loading := False\<rparr>"

definition fetchData :: "survey_results \<Rightarrow> store \<Rightarrow> survey_results \<times> store" where
  "fetchData v st =
     (case select_survey (sr_id v) st of (surveyRes, st1) \<Rightarrow>
      case select_questions (sr_id v) st1 of (questionsRes, st2) \<Rightarrow>
      case select_response_ids (sr_id v) st2 of (responsesRes, st3) \<Rightarrow>
      (case surveyRes of
         Inl surveyError \<Rightarrow> (sr_failed surveyError v, st3)
       | Inr surveyData \<Rightarrow>
           (case questionsRes of
              Inl questionsError \<Rightarrow> (sr_failed questionsError v, st3)
            | Inr questionsData \<Rightarrow>
                (let v1 = v\<lparr>sr_survey := Some surveyData, sr_questions := questionsData,
                             sr_responseCount :=
                               (case responsesRes of Inr ids \<Rightarrow> length ids | Inl e \<Rightarrow> 0)\<rparr>
                 in case responsesRes of
                      Inl e \<Rightarrow> (v1\<lparr>sr_loading := False\<rparr>, st3)
                    | Inr responseIds \<Rightarrow>
                        if length responseIds > 0 then
                          (case select_answers_in responseIds st3 of
                             (Inl answersError, st4) \<Rightarrow> (sr_failed answersError v1, st4)
                           | (Inr answersData, st4) \<Rightarrow>
                               (v1\<lparr>sr_answers := answersData, sr_loading := False\<rparr>, st4))
                        else (v1\<lparr>sr_loading := False\<rparr>, st3)))))"

text \<open>
  A cell of the \<open>counts\<close> object: a number, or the string that \<open>+ 1\<close> makes of an
  inherited property.
\<close>

datatype tally = Count nat | Text string

datatype analytics =
    Choice "(string \<times> tally) list"
  | Rating string nat
  | Texts "string list"

text \<open>\<open>acc[answer.answer_value] = (acc[answer.answer_value] || 0) + 1\<close>.\<close>

definition count_step :: "tally jsobj \<Rightarrow> answer \<Rightarrow> tally jsobj" where
  "count_step acc a =
     (let k = answer_value a in
      js_set k
        (case js_get acc k of
           Own (Count n) \<Rightarrow> Count (n + 1)
         | Own (Text s) \<Rightarrow> if s = [] then Count 1 else Text (s @ ''1'')
         | Inherited s \<Rightarrow> Text (s @ ''1'')
         | Undefined \<Rightarrow> Count 1)
        acc)"

definition getQuestionAnalytics :: "survey_results \<Rightarrow> question_row \<Rightarrow> analytics" where
  "getQuestionAnalytics v question =
     (let questionAnswers = filter (\<lambda>a. question_id a = qu_id question) (sr_answers v) in
      if qu_type question = ''multiple_choice'' \<or> qu_type question = ''dropdown'' then
        Choice (obj_entries (foldl count_step [] questionAnswers))
      else if qu_type question = ''rating'' then
        (let ratings = map (\<lambda>a. parseInt (answer_value a)) questionAnswers;
             average = (if length ratings > 0
                        then toFixed1 (js_div (foldl js_add (Num 0) ratings)
                                              (num_of_nat (length ratings)))
                        else ''0'')
         in Rating average (length ratings))
      else Texts (map answer_value questionAnswers))"








section \<open>The specification's wording, for comparison\<close>

text \<open>
  The tallies as the specification describes them: the distinct answer values in
  order of first occurrence, each with the number of its occurrences.
\<close>

definition first_occurrences :: "string list \<Rightarrow> string list" where
  "first_occurrences vs = rev (remdups (rev vs))"

definition occurrence_pairs :: "string list \<Rightarrow> (string \<times> tally) list" where
  "occurrence_pairs vs = map (\<lambda>k. (k, Count (count_list vs k))) (first_occurrences vs)"






section \<open>Example states\<close>

definition empty_store :: store where
  "empty_store =
     \<lparr>surveys = [], questions = [], responses = [], answers = [], next_id = 0, down = [],
      calls = []\<rparr>"

definition new_builder :: "string \<Rightarrow> question list \<Rightarrow> create_survey" where
  "new_builder title qs =
     \<lparr>cs_title = title, cs_description = [], cs_questions = qs, cs_saving = False,
      cs_toasts = [], cs_console = [], cs_navigated = []\<rparr>"

definition choice_question :: "string \<Rightarrow> string list \<Rightarrow> question" where
  "choice_question txt os =
     \<lparr>q_type = ''multiple_choice'', q_text = txt, q_options = Some os, q_required = True,
      q_order_index = 0\<rparr>"

definition survey_s1 :: "string \<Rightarrow> survey_row" where
  "survey_s1 status =
     \<lparr>sv_id = ''s1'', sv_title = ''Team pulse'', sv_description = None, sv_status = status\<rparr>"

definition question_of_s1 :: "string \<Rightarrow> string \<Rightarrow> bool \<Rightarrow> question_row" where
  "question_of_s1 i ty req =
     \<lparr>qu_id = i, qu_survey_id = ''s1'', qu_type = ty, qu_text = ''How was your week?'',
      qu_options = None, qu_required = req, qu_order_index = 0\<rparr>"

definition store_s1 :: "string \<Rightarrow> question_row list \<Rightarrow> store" where
  "store_s1 status qs = empty_store\<lparr>surveys := [survey_s1 status], questions := qs\<rparr>"

definition new_take_survey :: "string \<Rightarrow> take_survey" where
  "new_take_survey i =
     \<lparr>ts_id = i, ts_survey = None, ts_questions = [], ts_answers = [], ts_loading = True,
      ts_submitting = False, ts_submitted = False, ts_toasts = [], ts_console = []\<rparr>"

definition new_survey_results :: "string \<Rightarrow> survey_results" where
  "new_survey_results i =
     \<lparr>sr_id = i, sr_survey = None, sr_questions = [], sr_answers = [], sr_responseCount = 0,
      sr_loading = True, sr_toasts = [], sr_console = []\<rparr>"

definition responses_down_store :: store where
  "responses_down_store =
     (store_s1 ''published'' [question_of_s1 ''q1'' ''rating'' True])
       \<lparr>responses := [\<lparr>rs_id = ''r1'', rs_survey_id = ''s1''\<rparr>],
        answers := [\<lparr>an_id = ''a1'', an_response_id = ''r1'', an_question_id = ''q1'',
                     an_answer_value = ''4''\<rparr>],
        down := [Responses]\<rparr>"

definition take_s1 :: "question_row list \<Rightarrow> string jsobj \<Rightarrow> take_survey" where
  "take_s1 qs as =
     (new_take_survey ''s1'')
       \<lparr>ts_survey := Some (survey_s1 ''published''), ts_questions := qs, ts_answers := as,
        ts_loading := False\<rparr>"

definition store_one :: store where
  "store_one = store_s1 ''published'' [question_of_s1 ''q1'' ''short_text'' True]"

definition cleared_required :: take_survey where
  "cleared_required = take_s1 [question_of_s1 ''q1'' ''short_text'' True] [(''q1'', [])]"

definition store_two :: store where
  "store_two =
     store_s1 ''published''
       [question_of_s1 ''q1'' ''rating'' True, question_of_s1 ''q2'' ''long_text'' False]"

definition one_answer :: take_survey where
  "one_answer =
     take_s1 [question_of_s1 ''q1'' ''rating'' True, question_of_s1 ''q2'' ''long_text'' False]
       [(''q1'', ''4'')]"

definition cleared_optional :: take_survey where
  "cleared_optional =
     take_s1 [question_of_s1 ''q1'' ''rating'' True, question_of_s1 ''q2'' ''long_text'' False]
       [(''q1'', ''4''), (''q2'', [])]"

definition answers_to :: "string \<Rightarrow> string list \<Rightarrow> answer list" where
  "answers_to q vs = map (\<lambda>x. \<lparr>question_id = q, answer_value = x\<rparr>) vs"

definition results_s1 :: "question_row list \<Rightarrow> answer list \<Rightarrow> survey_results" where
  "results_s1 qs as =
     (new_survey_results ''s1'')
       \<lparr>sr_survey := Some (survey_s1 ''published''), sr_questions := qs, sr_answers := as,
        sr_responseCount := 3, sr_loading := False\<rparr>"

definition two_question_results :: survey_results where
  "two_question_results =
     results_s1 [question_of_s1 ''q1'' ''multiple_choice'' True, question_of_s1 ''q2'' ''rating'' True]
       (answers_to ''q1'' [''A'', ''B'', ''A''] @ answers_to ''q2'' [''4'', ''5'', ''3''])"

section \<open>Enumeration of an object\<close>

lemma mset_obj_entries: "mset (obj_entries obj) = mset obj"
  by (simp add: obj_entries_def)

lemma length_obj_keys: "length (obj_keys obj) = length obj"
  using arg_cong[OF mset_obj_entries, of size obj] by (simp add: obj_keys_def)

lemma set_obj_entries: "set (obj_entries obj) = set obj"
  using arg_cong[OF mset_obj_entries, of set_mset obj] by simp

section \<open>The store's inserts\<close>

lemma insert_survey_frame:
  "insert_survey n st = (r, st1) \<Longrightarrow>
     questions st1 = questions st \<and> responses st1 = responses st \<and> answers st1 = answers st"
  by (auto simp: insert_survey_def log_call_def Let_def split: if_splits)

lemma insert_questions_accepted:
  "insert_questions ns st1 = (Inr u, st2) \<Longrightarrow>
     questions st2 = questions st1 @ map (question_of_new (next_id st1)) (enumerate 0 ns)
     \<and> surveys st2 = surveys st1 \<and> responses st2 = responses st1 \<and> answers st2 = answers st1"
  by (auto simp: insert_questions_def log_call_def Let_def split: if_splits)

lemma map_question_of_new:
  "map (\<lambda>r. f (qu_survey_id r) (qu_type r) (qu_text r) (qu_options r) (qu_required r) (qu_order_index r))
       (map (question_of_new b) (enumerate k ns))
   = map (\<lambda>n. f (nq_survey_id n) (nq_type n) (nq_text n) (nq_options n) (nq_required n) (nq_order_index n)) ns"
  by (induction ns arbitrary: k) (simp_all add: question_of_new_def)

lemma insert_response_accepted:
  "insert_response i st = (Inr r, st1) \<Longrightarrow>
     responses st1 = responses st @ [r] \<and> rs_survey_id r = i \<and> surveys st1 = surveys st
     \<and> questions st1 = questions st \<and> answers st1 = answers st"
  by (auto simp: insert_response_def log_call_def Let_def split: if_splits)

lemma insert_answers_accepted:
  "insert_answers ns st1 = (Inr u, st2) \<Longrightarrow>
     answers st2 = answers st1 @ map (answer_of_new (next_id st1)) (enumerate 0 ns)
     \<and> surveys st2 = surveys st1 \<and> questions st2 = questions st1
     \<and> responses st2 = responses st1"
  by (auto simp: insert_answers_def log_call_def Let_def split: if_splits)

lemma map_answer_of_new:
  "map (\<lambda>r. f (an_response_id r) (an_question_id r) (an_answer_value r))
       (map (answer_of_new b) (enumerate k ns))
   = map (\<lambda>n. f (na_response_id n) (na_question_id n) (na_answer_value n)) ns"
  by (induction ns arbitrary: k) (simp_all add: answer_of_new_def)

section \<open>Survey Builder: saving\<close>

text \<open>
  C6. \<open>saveSurvey\<close> with a title that is empty after trimming, or with a question
  whose text is empty after trimming, reports the validation error (the title's
  first) and returns the store as it was: no row is added and no call is recorded.
\<close>

theorem saveSurvey_validation_no_store_call:
  assumes "trim (cs_title v) = [] \<or> list_ex (\<lambda>q. trim (q_text q) = []) (cs_questions v)"
  shows "saveSurvey status v st =
           (cs_toast (ToastError (if trim (cs_title v) = [] then ''Please enter a survey title''
                                  else ''All questions must have text'')) v, st)
       \<and> calls (snd (saveSurvey status v st)) = calls st"
  using assms by (auto simp: saveSurvey_def)

theorem saveSurvey_validation_witness:
  "trim (cs_title (new_builder ''  '' [choice_question ''Mood?'' [''Good'']])) = []
   \<and> saveSurvey Draft (new_builder ''  '' [choice_question ''Mood?'' [''Good'']]) empty_store =
       (cs_toast (ToastError ''Please enter a survey title'')
          (new_builder ''  '' [choice_question ''Mood?'' [''Good'']]), empty_store)
   \<and> calls (snd (saveSurvey Draft (new_builder ''  '' [choice_question ''Mood?'' [''Good'']])
                   empty_store)) = []"
  using saveSurvey_validation_no_store_call
          [of "new_builder ''  '' [choice_question ''Mood?'' [''Good'']]" Draft empty_store]
  by (simp add: new_builder_def trim_def is_white_space_def empty_store_def)

text \<open>
  C7, as the claim states it, fails: a builder holding one \<open>multiple_choice\<close>
  question whose option list is empty is saved. The survey is published, the success
  message is shown, and the question is stored with \<open>options = null\<close>.
\<close>

theorem saveSurvey_empty_options_counterexample:
  "q_type (choice_question ''Pick one'' []) = ''multiple_choice''
   \<and> q_options (choice_question ''Pick one'' []) = Some []
   \<and> cs_toasts (fst (saveSurvey Published
                        (new_builder ''Team pulse'' [choice_question ''Pick one'' []]) empty_store))
       = [ToastSuccess ''Survey published successfully!'']
   \<and> map (\<lambda>r. (qu_type r, qu_text r, qu_options r))
        (questions (snd (saveSurvey Published
                           (new_builder ''Team pulse'' [choice_question ''Pick one'' []]) empty_store)))
       = [(''multiple_choice'', ''Pick one'', None)]"
  by code_simp

text \<open>
  C7, amended. \<open>saveSurvey\<close> checks the title and the question texts and nothing
  else. When both are non-blank and the store accepts the two inserts, the save
  succeeds and stores one row per question of the builder, in order, with the type,
  text, required flag and order index of the question; an option list that is empty
  is stored as \<open>null\<close> (never as an empty list), whatever the question's type.
\<close>

theorem saveSurvey_keeps_questions_without_options:
  assumes "trim (cs_title v) \<noteq> []"
    and "\<not> list_ex (\<lambda>q. trim (q_text q) = []) (cs_questions v)"
    and "insert_survey \<lparr>ns_title = cs_title v, ns_description = cs_description v,
                         ns_status = status_string status\<rparr> st = (Inr survey, st1)"
    and "insert_questions (questionsToInsert (sv_id survey) (cs_questions v)) st1 = (Inr u, st2)"
  shows "snd (saveSurvey status v st) = st2
       \<and> (\<exists>msg. cs_toasts (fst (saveSurvey status v st)) = cs_toasts v @ [ToastSuccess msg])
       \<and> (\<exists>rows. questions st2 = questions st @ rows
             \<and> map (\<lambda>r. (qu_survey_id r, qu_type r, qu_text r, qu_required r, qu_order_index r)) rows
                 = map (\<lambda>q. (sv_id survey, q_type q, q_text q, q_required q, q_order_index q))
                     (cs_questions v)
             \<and> map qu_options rows
                 = map (\<lambda>q. if q_options q = Some [] then None else q_options q) (cs_questions v))"
proof -
  let ?ns = "questionsToInsert (sv_id survey) (cs_questions v)"
  let ?rows = "map (question_of_new (next_id st1)) (enumerate 0 ?ns)"
  have run: "saveSurvey status v st =
      ((cs_toast (ToastSuccess (''Survey '' @ (if status = Draft then ''saved as draft''
                                              else ''published'') @ '' successfully!'')) v)
         \<lparr>cs_navigated := cs_navigated v @ [''/''], cs_saving := False\<rparr>, st2)"
    using assms by (simp add: saveSurvey_def)
  have rows: "questions st2 = questions st @ ?rows"
    using insert_questions_accepted[OF assms(4)] insert_survey_frame[OF assms(3)] by simp
  have fields: "map (\<lambda>r. (qu_survey_id r, qu_type r, qu_text r, qu_required r, qu_order_index r)) ?rows
      = map (\<lambda>q. (sv_id survey, q_type q, q_text q, q_required q, q_order_index q)) (cs_questions v)"
    unfolding map_question_of_new[where f = "\<lambda>s t x os r i. (s, t, x, r, i)"]
    by (simp add: questionsToInsert_def comp_def)
  have opts: "map qu_options ?rows
      = map (\<lambda>q. if q_options q = Some [] then None else q_options q) (cs_questions v)"
    unfolding map_question_of_new[where f = "\<lambda>s t x os r i. os"]
    by (auto simp: questionsToInsert_def comp_def split: option.splits)
  show ?thesis
    using run rows fields opts by (simp add: cs_toast_def)
qed


theorem saveSurvey_keeps_questions_without_options_witness:
  "trim (cs_title (new_builder ''Team pulse'' [choice_question ''Pick one'' []])) \<noteq> []
   \<and> \<not> list_ex (\<lambda>q. trim (q_text q) = [])
          (cs_questions (new_builder ''Team pulse'' [choice_question ''Pick one'' []]))
   \<and> (\<exists>rows. questions (snd (saveSurvey Published
                   (new_builder ''Team pulse'' [choice_question ''Pick one'' []]) empty_store)) = rows
          \<and> map qu_type rows = [''multiple_choice''] \<and> map qu_options rows = [None])"
proof -
  let ?v = "new_builder ''Team pulse'' [choice_question ''Pick one'' []]"
  let ?n = "\<lparr>ns_title = cs_title ?v, ns_description = cs_description ?v,
             ns_status = status_string Published\<rparr>"
  let ?survey = "\<lparr>sv_id = ''uuid-0'', sv_title = ''Team pulse'', sv_description = Some [],
                  sv_status = ''published''\<rparr>"
  let ?st1 = "snd (insert_survey ?n empty_store)"
  let ?st2 = "snd (insert_questions (questionsToInsert (sv_id ?survey) (cs_questions ?v)) ?st1)"
  have title: "trim (cs_title ?v) \<noteq> []"
    by code_simp
  have texts: "\<not> list_ex (\<lambda>q. trim (q_text q) = []) (cs_questions ?v)"
    by code_simp
  have first: "insert_survey ?n empty_store = (Inr ?survey, ?st1)"
    by code_simp
  have second: "insert_questions (questionsToInsert (sv_id ?survey) (cs_questions ?v)) ?st1
                  = (Inr (), ?st2)"
    by code_simp
  have shape: "map (\<lambda>q. if q_options q = Some [] then None else q_options q) (cs_questions ?v)
                 = [None]"
    by code_simp
  have types: "map q_type (cs_questions ?v) = [''multiple_choice'']"
    by code_simp
  have none_before: "questions empty_store = []"
    by code_simp
  from saveSurvey_keeps_questions_without_options[OF title texts first second]
  obtain rows where rows: "snd (saveSurvey Published ?v empty_store) = ?st2"
      "questions ?st2 = questions empty_store @ rows"
      "map (\<lambda>r. (qu_survey_id r, qu_type r, qu_text r, qu_required r, qu_order_index r)) rows
         = map (\<lambda>q. (sv_id ?survey, q_type q, q_text q, q_required q, q_order_index q))
             (cs_questions ?v)"
      "map qu_options rows
         = map (\<lambda>q. if q_options q = Some [] then None else q_options q) (cs_questions ?v)"
    by blast
  have "map qu_type rows
          = map (\<lambda>p. fst (snd p))
              (map (\<lambda>r. (qu_survey_id r, qu_type r, qu_text r, qu_required r, qu_order_index r)) rows)"
    by simp
  also have "\<dots> = map q_type (cs_questions ?v)"
    unfolding rows(3) by simp
  finally have "map qu_type rows = [''multiple_choice'']"
    using types by simp
  then show ?thesis
    using title texts rows(1,2,4) shape none_before by simp
qed

section \<open>Survey Runtime: loading\<close>

text \<open>
  C8. \<open>fetchSurvey\<close> asks for the row with the identifier and status
  \<open>published\<close>. A store that holds the survey with another status and a store that
  holds no survey with that identifier give the same reply (no rows), so the page
  ends in the same state: the message "Survey not found or unavailable", the same
  logged error, no survey and no questions. The reply to the questions query is
  dropped in both runs.
\<close>

theorem fetchSurvey_unpublished_like_missing:
  assumes "\<not> List.member (down st1) Surveys" and "\<not> List.member (down st2) Surveys"
    and "filter (\<lambda>s. sv_id s = ts_id v) (surveys st1) = [s]"
    and "sv_status s \<noteq> ''published''"
    and "filter (\<lambda>s. sv_id s = ts_id v) (surveys st2) = []"
  shows "fst (fetchSurvey v st1) = fst (fetchSurvey v st2)
       \<and> fst (fetchSurvey v st1) = ts_not_found NoRows v"
proof -
  have split: "\<And>xs. filter (\<lambda>s. sv_id s = ts_id v \<and> sv_status s = ''published'') xs
                 = filter (\<lambda>s. sv_status s = ''published'') (filter (\<lambda>s. sv_id s = ts_id v) xs)"
    by (simp add: conj_commute)
  have r1: "fst (select_published_survey (ts_id v) st1) = Inl NoRows"
    using assms(1,3,4) by (simp add: select_published_survey_def log_call_def split)
  have r2: "fst (select_published_survey (ts_id v) st2) = Inl NoRows"
    using assms(2,5) by (simp add: select_published_survey_def log_call_def split)
  have run: "\<And>st. fst (select_published_survey (ts_id v) st) = Inl NoRows
               \<Longrightarrow> fst (fetchSurvey v st) = ts_not_found NoRows v"
    by (auto simp: fetchSurvey_def split: prod.splits sum.splits)
  show ?thesis
    using run[OF r1] run[OF r2] by simp
qed

theorem fetchSurvey_unpublished_like_missing_witness:
  "\<not> List.member (down (store_s1 ''draft'' [question_of_s1 ''q1'' ''rating'' True])) Surveys
   \<and> \<not> List.member (down empty_store) Surveys
   \<and> filter (\<lambda>s. sv_id s = ts_id (new_take_survey ''s1''))
        (surveys (store_s1 ''draft'' [question_of_s1 ''q1'' ''rating'' True])) = [survey_s1 ''draft'']
   \<and> sv_status (survey_s1 ''draft'') \<noteq> ''published''
   \<and> filter (\<lambda>s. sv_id s = ts_id (new_take_survey ''s1'')) (surveys empty_store) = []
   \<and> fst (fetchSurvey (new_take_survey ''s1'')
             (store_s1 ''draft'' [question_of_s1 ''q1'' ''rating'' True]))
       = fst (fetchSurvey (new_take_survey ''s1'') empty_store)
   \<and> ts_toasts (fst (fetchSurvey (new_take_survey ''s1'')
                        (store_s1 ''draft'' [question_of_s1 ''q1'' ''rating'' True])))
       = [ToastError ''Survey not found or unavailable'']"
proof -
  let ?st1 = "store_s1 ''draft'' [question_of_s1 ''q1'' ''rating'' True]"
  let ?v = "new_take_survey ''s1''"
  have a: "\<not> List.member (down ?st1) Surveys"
    by code_simp
  have b: "\<not> List.member (down empty_store) Surveys"
    by code_simp
  have c: "filter (\<lambda>s. sv_id s = ts_id ?v) (surveys ?st1) = [survey_s1 ''draft'']"
    by code_simp
  have d: "sv_status (survey_s1 ''draft'') \<noteq> ''published''"
    by code_simp
  have e: "filter (\<lambda>s. sv_id s = ts_id ?v) (surveys empty_store) = []"
    by code_simp
  have f: "ts_toasts (ts_not_found NoRows ?v) = [ToastError ''Survey not found or unavailable'']"
    by code_simp
  note same = fetchSurvey_unpublished_like_missing[OF a b c d e]
  have g: "ts_toasts (fst (fetchSurvey ?v ?st1)) = [ToastError ''Survey not found or unavailable'']"
    using conjunct2[OF same] f by simp
  show ?thesis
    using a b c d e conjunct1[OF same] g by blast
qed

section \<open>Survey Runtime: submitting\<close>

lemma missingAnswers_nonempty:
  "(missingAnswers v \<noteq> [])
     = list_ex (\<lambda>q. qu_required q \<and> \<not> truthy (js_get (ts_answers v) (qu_id q))) (ts_questions v)"
  by (auto simp: missingAnswers_def list_ex_iff filter_empty_conv)

lemma handleSubmit_missing:
  "list_ex (\<lambda>q. qu_required q \<and> \<not> truthy (js_get (ts_answers v) (qu_id q))) (ts_questions v)
   \<Longrightarrow> handleSubmit v st = (ts_toast (ToastError ''Please answer all required questions'') v, st)"
  by (simp add: handleSubmit_def missingAnswers_nonempty)

lemma handleSubmit_accepted:
  assumes "\<not> list_ex (\<lambda>q. qu_required q \<and> \<not> truthy (js_get (ts_answers v) (qu_id q)))
               (ts_questions v)"
    and "insert_response (ts_id v) st = (Inr response, st1)"
    and "insert_answers (answersToInsert (rs_id response) (ts_answers v)) st1 = (Inr u, st2)"
  shows "handleSubmit v st =
           ((ts_toast (ToastSuccess ''Survey submitted successfully!'') v)
              \<lparr>ts_submitted := True, ts_submitting := False\<rparr>, st2)"
    and "responses st2 = responses st @ [response]"
    and "rs_survey_id response = ts_id v"
    and "surveys st2 = surveys st"
    and "questions st2 = questions st"
    and "\<exists>rows. answers st2 = answers st @ rows
           \<and> map (\<lambda>r. (an_response_id r, an_question_id r, an_answer_value r)) rows
               = map (\<lambda>p. (rs_id response, fst p, snd p)) (obj_entries (ts_answers v))"
proof -
  show "handleSubmit v st =
           ((ts_toast (ToastSuccess ''Survey submitted successfully!'') v)
              \<lparr>ts_submitted := True, ts_submitting := False\<rparr>, st2)"
    using assms by (simp add: handleSubmit_def missingAnswers_nonempty)
  note r = insert_response_accepted[OF assms(2)]
  note a = insert_answers_accepted[OF assms(3)]
  show "responses st2 = responses st @ [response]" "rs_survey_id response = ts_id v"
    "surveys st2 = surveys st" "questions st2 = questions st"
    using r a by simp_all
  let ?rows = "map (answer_of_new (next_id st1))
                 (enumerate 0 (answersToInsert (rs_id response) (ts_answers v)))"
  have "map (\<lambda>r. (an_response_id r, an_question_id r, an_answer_value r)) ?rows
          = map (\<lambda>p. (rs_id response, fst p, snd p)) (obj_entries (ts_answers v))"
    unfolding map_answer_of_new[where f = "\<lambda>r q x. (r, q, x)"]
    by (simp add: answersToInsert_def comp_def)
  moreover have "answers st2 = answers st @ ?rows"
    using r a by simp
  ultimately show "\<exists>rows. answers st2 = answers st @ rows
           \<and> map (\<lambda>r. (an_response_id r, an_question_id r, an_answer_value r)) rows
               = map (\<lambda>p. (rs_id response, fst p, snd p)) (obj_entries (ts_answers v))"
    by blast
qed

lemma not_truthy_iff:
  "map_of object_prototype k = None
   \<Longrightarrow> (\<not> truthy (js_get as k)) = (map_of as k = None \<or> map_of as k = Some [])"
  by (cases "map_of as k") (simp_all add: js_get_def)

lemma unanswered_iff:
  assumes "list_all (\<lambda>q. map_of object_prototype (qu_id q) = None) (ts_questions v)"
  shows "list_ex (\<lambda>q. qu_required q \<and> (map_of (ts_answers v) (qu_id q) = None
                                     \<or> map_of (ts_answers v) (qu_id q) = Some []))
           (ts_questions v)
         = list_ex (\<lambda>q. qu_required q \<and> \<not> truthy (js_get (ts_answers v) (qu_id q)))
             (ts_questions v)"
  unfolding list_ex_iff using assms
  by (intro bex_cong refl) (simp add: list_all_iff not_truthy_iff)

text \<open>
  C1, as the claim states it, fails. The respondent typed an answer to the required
  question \<open>q1\<close> and cleared it again, so the accumulator holds an entry for \<open>q1\<close>
  (the empty string) and no required question lacks an entry; yet \<open>handleSubmit\<close>
  reports "Please answer all required questions" and stores nothing.
\<close>

theorem handleSubmit_empty_entry_counterexample:
  "filter (\<lambda>q. qu_required q \<and> map_of (ts_answers cleared_required) (qu_id q) = None)
     (ts_questions cleared_required) = []
   \<and> handleSubmit cleared_required store_one
      = (ts_toast (ToastError ''Please answer all required questions'') cleared_required,
         store_one)
   \<and> responses (snd (handleSubmit cleared_required store_one)) = []
   \<and> answers (snd (handleSubmit cleared_required store_one)) = []"
  by code_simp

text \<open>
  C1, amended. Let no question identifier name a property of \<open>Object.prototype\<close>
  (generated identifiers never do; \<open>handleSubmit\<close> tests the truthiness of
  \<open>answers[q.id]\<close>, which would find the inherited property). If for some required
  question the accumulator holds no entry or the empty string, \<open>handleSubmit\<close>
  reports the validation error and returns the store as it was. Otherwise, when the
  store accepts both inserts, it adds exactly one response row, for this survey, and
  the answer rows it adds are one per entry of the accumulator, each with the new
  response's identifier, the entry's question identifier and its value; a question
  with no entry gets no row.
\<close>

theorem handleSubmit_validates_then_inserts:
  assumes "list_all (\<lambda>q. map_of object_prototype (qu_id q) = None) (ts_questions v)"
  shows "(list_ex (\<lambda>q. qu_required q \<and> (map_of (ts_answers v) (qu_id q) = None
                                      \<or> map_of (ts_answers v) (qu_id q) = Some []))
            (ts_questions v)
      \<longrightarrow> handleSubmit v st
            = (ts_toast (ToastError ''Please answer all required questions'') v, st))
   \<and> (\<not> list_ex (\<lambda>q. qu_required q \<and> (map_of (ts_answers v) (qu_id q) = None
                                        \<or> map_of (ts_answers v) (qu_id q) = Some []))
            (ts_questions v)
      \<and> insert_response (ts_id v) st = (Inr response, st1)
      \<and> insert_answers (answersToInsert (rs_id response) (ts_answers v)) st1 = (Inr u, st2)
      \<longrightarrow> snd (handleSubmit v st) = st2
          \<and> ts_submitted (fst (handleSubmit v st))
          \<and> responses st2 = responses st @ [response]
          \<and> rs_survey_id response = ts_id v
          \<and> (\<exists>rows. answers st2 = answers st @ rows
                \<and> map (\<lambda>r. (an_response_id r, an_question_id r, an_answer_value r)) rows
                    = map (\<lambda>p. (rs_id response, fst p, snd p)) (obj_entries (ts_answers v))
                \<and> mset (map (\<lambda>r. (an_question_id r, an_answer_value r)) rows)
                    = mset (ts_answers v)))"
proof (intro conjI impI)
  assume "list_ex (\<lambda>q. qu_required q \<and> (map_of (ts_answers v) (qu_id q) = None
                                      \<or> map_of (ts_answers v) (qu_id q) = Some []))
            (ts_questions v)"
  then have "list_ex (\<lambda>q. qu_required q \<and> \<not> truthy (js_get (ts_answers v) (qu_id q)))
               (ts_questions v)"
    using unanswered_iff[OF assms] by simp
  then show "handleSubmit v st
               = (ts_toast (ToastError ''Please answer all required questions'') v, st)"
    by (rule handleSubmit_missing)
next
  assume ok: "\<not> list_ex (\<lambda>q. qu_required q \<and> (map_of (ts_answers v) (qu_id q) = None
                                        \<or> map_of (ts_answers v) (qu_id q) = Some []))
                  (ts_questions v)
      \<and> insert_response (ts_id v) st = (Inr response, st1)
      \<and> insert_answers (answersToInsert (rs_id response) (ts_answers v)) st1 = (Inr u, st2)"
  have answered: "\<not> list_ex (\<lambda>q. qu_required q
                        \<and> \<not> truthy (js_get (ts_answers v) (qu_id q))) (ts_questions v)"
    using conjunct1[OF ok] unanswered_iff[OF assms] by simp
  note run = handleSubmit_accepted[OF answered conjunct1[OF conjunct2[OF ok]]
                                     conjunct2[OF conjunct2[OF ok]]]
  show "snd (handleSubmit v st) = st2" "ts_submitted (fst (handleSubmit v st))"
    using run(1) by simp_all
  show "responses st2 = responses st @ [response]" "rs_survey_id response = ts_id v"
    using run(2,3) by simp_all
  from run(6) obtain rows where rows: "answers st2 = answers st @ rows"
    "map (\<lambda>r. (an_response_id r, an_question_id r, an_answer_value r)) rows
       = map (\<lambda>p. (rs_id response, fst p, snd p)) (obj_entries (ts_answers v))"
    by blast
  have "map (\<lambda>r. (an_question_id r, an_answer_value r)) rows
          = map snd (map (\<lambda>r. (an_response_id r, an_question_id r, an_answer_value r)) rows)"
    by simp
  also have "\<dots> = obj_entries (ts_answers v)"
    unfolding rows(2) by (simp add: comp_def)
  finally have "mset (map (\<lambda>r. (an_question_id r, an_answer_value r)) rows) = mset (ts_answers v)"
    by (simp add: mset_obj_entries)
  with rows show "\<exists>rows. answers st2 = answers st @ rows
                \<and> map (\<lambda>r. (an_response_id r, an_question_id r, an_answer_value r)) rows
                    = map (\<lambda>p. (rs_id response, fst p, snd p)) (obj_entries (ts_answers v))
                \<and> mset (map (\<lambda>r. (an_question_id r, an_answer_value r)) rows)
                    = mset (ts_answers v)"
    by blast
qed

theorem handleSubmit_validates_then_inserts_witness:
  "list_all (\<lambda>q. map_of object_prototype (qu_id q) = None) (ts_questions cleared_required)
   \<and> list_ex (\<lambda>q. qu_required q \<and> (map_of (ts_answers cleared_required) (qu_id q) = None
                                   \<or> map_of (ts_answers cleared_required) (qu_id q) = Some []))
       (ts_questions cleared_required)
   \<and> handleSubmit cleared_required store_one
       = (ts_toast (ToastError ''Please answer all required questions'') cleared_required,
          store_one)
   \<and> list_all (\<lambda>q. map_of object_prototype (qu_id q) = None) (ts_questions one_answer)
   \<and> \<not> list_ex (\<lambda>q. qu_required q \<and> (map_of (ts_answers one_answer) (qu_id q) = None
                                     \<or> map_of (ts_answers one_answer) (qu_id q) = Some []))
          (ts_questions one_answer)
   \<and> ts_submitted (fst (handleSubmit one_answer store_two))
   \<and> responses (snd (handleSubmit one_answer store_two))
       = [\<lparr>rs_id = ''uuid-0'', rs_survey_id = ''s1''\<rparr>]
   \<and> map (\<lambda>r. (an_response_id r, an_question_id r, an_answer_value r))
        (answers (snd (handleSubmit one_answer store_two)))
       = [(''uuid-0'', ''q1'', ''4'')]"
proof -
  let ?response = "\<lparr>rs_id = ''uuid-0'', rs_survey_id = ''s1''\<rparr>"
  let ?st1 = "snd (insert_response (ts_id one_answer) store_two)"
  let ?st2 = "snd (insert_answers (answersToInsert (rs_id ?response) (ts_answers one_answer)) ?st1)"
  have ids: "list_all (\<lambda>q. map_of object_prototype (qu_id q) = None)
               (ts_questions cleared_required)"
    by code_simp
  have ids': "list_all (\<lambda>q. map_of object_prototype (qu_id q) = None) (ts_questions one_answer)"
    by code_simp
  have missing: "list_ex (\<lambda>q. qu_required q
                    \<and> (map_of (ts_answers cleared_required) (qu_id q) = None
                       \<or> map_of (ts_answers cleared_required) (qu_id q) = Some []))
                   (ts_questions cleared_required)"
    by code_simp
  have refused: "handleSubmit cleared_required store_one
       = (ts_toast (ToastError ''Please answer all required questions'') cleared_required,
          store_one)"
    using conjunct1[OF handleSubmit_validates_then_inserts[OF ids, of store_one]] missing
    by blast
  have complete: "\<not> list_ex (\<lambda>q. qu_required q
                      \<and> (map_of (ts_answers one_answer) (qu_id q) = None
                         \<or> map_of (ts_answers one_answer) (qu_id q) = Some []))
                     (ts_questions one_answer)"
    by code_simp
  have first: "insert_response (ts_id one_answer) store_two = (Inr ?response, ?st1)"
    by code_simp
  have second: "insert_answers (answersToInsert (rs_id ?response) (ts_answers one_answer)) ?st1
                  = (Inr (), ?st2)"
    by code_simp
  have before: "responses store_two = []" "answers store_two = []"
    by code_simp+
  have entries: "map (\<lambda>p. (rs_id ?response, fst p, snd p)) (obj_entries (ts_answers one_answer))
                   = [(''uuid-0'', ''q1'', ''4'')]"
    by code_simp
  from conjunct2[OF handleSubmit_validates_then_inserts
                      [OF ids', of store_two ?response ?st1 "()" ?st2]]
    complete first second
  have accepted: "snd (handleSubmit one_answer store_two) = ?st2
          \<and> ts_submitted (fst (handleSubmit one_answer store_two))
          \<and> responses ?st2 = responses store_two @ [?response]
          \<and> rs_survey_id ?response = ts_id one_answer
          \<and> (\<exists>rows. answers ?st2 = answers store_two @ rows
                \<and> map (\<lambda>r. (an_response_id r, an_question_id r, an_answer_value r)) rows
                    = map (\<lambda>p. (rs_id ?response, fst p, snd p))
                        (obj_entries (ts_answers one_answer))
                \<and> mset (map (\<lambda>r. (an_question_id r, an_answer_value r)) rows)
                    = mset (ts_answers one_answer))"
    by blast
  then obtain rows where rows: "answers ?st2 = answers store_two @ rows"
      "map (\<lambda>r. (an_response_id r, an_question_id r, an_answer_value r)) rows
         = map (\<lambda>p. (rs_id ?response, fst p, snd p)) (obj_entries (ts_answers one_answer))"
    by blast
  have stored: "map (\<lambda>r. (an_response_id r, an_question_id r, an_answer_value r))
        (answers (snd (handleSubmit one_answer store_two))) = [(''uuid-0'', ''q1'', ''4'')]"
    using accepted rows entries before by simp
  have resp: "responses (snd (handleSubmit one_answer store_two)) = [?response]"
    using accepted before by simp
  show ?thesis
    using ids missing refused ids' complete accepted stored resp by blast
qed

lemma length_without_key:
  "distinct (map fst as) \<Longrightarrow> map_of as k = Some x
   \<Longrightarrow> length as = Suc (length (filter (\<lambda>p. fst p \<noteq> k) as))"
proof (induction as)
  case Nil
  then show ?case by simp
next
  case (Cons p as)
  show ?case
  proof (cases "fst p = k")
    case True
    then have "k \<notin> fst ` set as"
      using Cons.prems(1) by auto
    then have "filter (\<lambda>p. fst p \<noteq> k) as = as"
      by (auto simp: filter_id_conv)
    then show ?thesis
      using True by simp
  next
    case False
    then show ?thesis
      using Cons by (simp split: if_splits)
  qed
qed

lemma empty_entry_missing:
  "map_of (ts_answers v) k = Some []
   \<Longrightarrow> list_ex (\<lambda>q. qu_required q \<and> qu_id q = k) (ts_questions v)
   \<Longrightarrow> list_ex (\<lambda>q. qu_required q \<and> \<not> truthy (js_get (ts_answers v) (qu_id q))) (ts_questions v)"
  by (auto simp: list_ex_iff js_get_def)

text \<open>
  C10. An entry holding the empty string is an own key of the accumulator, so it
  is counted in the numerator of \<open>progress\<close>; when the submission goes through, an
  answer row with the empty string is stored for it; and when its question is
  required, \<open>handleSubmit\<close> reports the validation error and stores nothing.
\<close>

theorem empty_string_answer:
  assumes "map_of (ts_answers v) k = Some []" and "distinct (map fst (ts_answers v))"
  shows "k \<in> set (obj_keys (ts_answers v))
       \<and> progress v
           = js_mul (js_div (num_of_nat (Suc (length (filter (\<lambda>p. fst p \<noteq> k) (ts_answers v)))))
                            (num_of_nat (length (ts_questions v))))
                    (Num 100)
       \<and> (\<not> list_ex (\<lambda>q. qu_required q \<and> \<not> truthy (js_get (ts_answers v) (qu_id q)))
              (ts_questions v)
          \<and> insert_response (ts_id v) st = (Inr response, st1)
          \<and> insert_answers (answersToInsert (rs_id response) (ts_answers v)) st1 = (Inr u, st2)
          \<longrightarrow> snd (handleSubmit v st) = st2
              \<and> (\<exists>rows. answers st2 = answers st @ rows
                    \<and> (rs_id response, k, [])
                        \<in> set (map (\<lambda>r. (an_response_id r, an_question_id r, an_answer_value r))
                                 rows)))
       \<and> (list_ex (\<lambda>q. qu_required q \<and> qu_id q = k) (ts_questions v)
          \<longrightarrow> handleSubmit v st
                = (ts_toast (ToastError ''Please answer all required questions'') v, st))"
proof (intro conjI impI)
  have entry: "(k, []) \<in> set (ts_answers v)"
    using assms(1) by (rule map_of_SomeD)
  then have listed: "(k, []) \<in> set (obj_entries (ts_answers v))"
    by (simp add: set_obj_entries)
  then show "k \<in> set (obj_keys (ts_answers v))"
    by (force simp: obj_keys_def)
  show "progress v
           = js_mul (js_div (num_of_nat (Suc (length (filter (\<lambda>p. fst p \<noteq> k) (ts_answers v)))))
                            (num_of_nat (length (ts_questions v))))
                    (Num 100)"
    using length_without_key[OF assms(2,1)] by (simp add: progress_def length_obj_keys)
  {
    assume ok: "\<not> list_ex (\<lambda>q. qu_required q \<and> \<not> truthy (js_get (ts_answers v) (qu_id q)))
                   (ts_questions v)
          \<and> insert_response (ts_id v) st = (Inr response, st1)
          \<and> insert_answers (answersToInsert (rs_id response) (ts_answers v)) st1 = (Inr u, st2)"
    note run = handleSubmit_accepted[OF conjunct1[OF ok] conjunct1[OF conjunct2[OF ok]]
                                       conjunct2[OF conjunct2[OF ok]]]
    show "snd (handleSubmit v st) = st2"
      using run(1) by simp
    from run(6) obtain rows where rows: "answers st2 = answers st @ rows"
      "map (\<lambda>r. (an_response_id r, an_question_id r, an_answer_value r)) rows
         = map (\<lambda>p. (rs_id response, fst p, snd p)) (obj_entries (ts_answers v))"
      by blast
    have "(rs_id response, k, [])
            \<in> set (map (\<lambda>r. (an_response_id r, an_question_id r, an_answer_value r)) rows)"
      unfolding rows(2) using listed by force
    with rows(1) show "\<exists>rows. answers st2 = answers st @ rows
                    \<and> (rs_id response, k, [])
                        \<in> set (map (\<lambda>r. (an_response_id r, an_question_id r, an_answer_value r))
                                 rows)"
      by blast
  }
  {
    assume "list_ex (\<lambda>q. qu_required q \<and> qu_id q = k) (ts_questions v)"
    then show "handleSubmit v st
                = (ts_toast (ToastError ''Please answer all required questions'') v, st)"
      using handleSubmit_missing[OF empty_entry_missing[OF assms(1)]] by simp
  }
qed

theorem empty_string_answer_witness:
  "map_of (ts_answers cleared_optional) ''q2'' = Some []
   \<and> distinct (map fst (ts_answers cleared_optional))
   \<and> progress cleared_optional = Num 100
   \<and> progress one_answer = Num 50
   \<and> map (\<lambda>r. (an_question_id r, an_answer_value r))
        (answers (snd (handleSubmit cleared_optional store_two)))
       = [(''q1'', ''4''), (''q2'', [])]
   \<and> map_of (ts_answers cleared_required) ''q1'' = Some []
   \<and> distinct (map fst (ts_answers cleared_required))
   \<and> list_ex (\<lambda>q. qu_required q \<and> qu_id q = ''q1'') (ts_questions cleared_required)
   \<and> handleSubmit cleared_required store_one
       = (ts_toast (ToastError ''Please answer all required questions'') cleared_required,
          store_one)"
proof -
  have held: "map_of (ts_answers cleared_optional) ''q2'' = Some []"
    and keys: "distinct (map fst (ts_answers cleared_optional))"
    by code_simp+
  have held': "map_of (ts_answers cleared_required) ''q1'' = Some []"
    and keys': "distinct (map fst (ts_answers cleared_required))"
    and required: "list_ex (\<lambda>q. qu_required q \<and> qu_id q = ''q1'') (ts_questions cleared_required)"
    by code_simp+
  have p: "progress cleared_optional = Num 100" "progress one_answer = Num 50"
    by code_simp+
  have stored: "map (\<lambda>r. (an_question_id r, an_answer_value r))
        (answers (snd (handleSubmit cleared_optional store_two)))
       = [(''q1'', ''4''), (''q2'', [])]"
    by code_simp
  have refused: "handleSubmit cleared_required store_one
       = (ts_toast (ToastError ''Please answer all required questions'') cleared_required,
          store_one)"
    using empty_string_answer[OF held' keys', of store_one] required by blast
  show ?thesis
    using held keys p stored held' keys' required refused by blast
qed



section \<open>Results Aggregator: loading\<close>

text \<open>
  C9 on the code. The survey's and the questions' errors are thrown; the error of
  the responses query is never read. With the \<open>responses\<close> table failing and the
  other two answering, \<open>fetchData\<close> shows the survey and its questions with a
  response count of 0, no message and no logged error (although the store holds a
  response), whereas the same store with the \<open>questions\<close> table failing instead
  gives the single message "Failed to load survey results".
\<close>

theorem fetchData_ignores_failed_responses_query:
  "fst (fetchData (new_survey_results ''s1'') responses_down_store)
     = (new_survey_results ''s1'')
         \<lparr>sr_survey := Some (survey_s1 ''published''),
          sr_questions := [question_of_s1 ''q1'' ''rating'' True],
          sr_responseCount := 0, sr_loading := False\<rparr>
   \<and> sr_toasts (fst (fetchData (new_survey_results ''s1'') responses_down_store)) = []
   \<and> calls (snd (fetchData (new_survey_results ''s1'') responses_down_store))
       = [Select Surveys, Select Questions, Select Responses]
   \<and> sr_toasts (fst (fetchData (new_survey_results ''s1'')
                        (responses_down_store\<lparr>down := [Questions]\<rparr>)))
       = [ToastError ''Failed to load survey results'']"
  by code_simp

section \<open>Results Aggregator: tallies\<close>

lemma first_occurrences_snoc:
  "first_occurrences (vs @ [k]) = (if k \<in> set vs then first_occurrences vs
                                   else first_occurrences vs @ [k])"
  by (simp add: first_occurrences_def)

lemma set_first_occurrences: "set (first_occurrences vs) = set vs"
  by (simp add: first_occurrences_def)

lemma distinct_first_occurrences: "distinct (first_occurrences vs)"
  by (simp add: first_occurrences_def)

lemma map_of_tabulate:
  "map_of (map (\<lambda>k. (k, f k)) ks) k = (if k \<in> set ks then Some (f k) else None)"
  by (induction ks) auto

lemma update_tabulate_present:
  "distinct ks \<Longrightarrow> k \<in> set ks \<Longrightarrow>
     AList.update k (f' k) (map (\<lambda>x. (x, f x)) ks) = map (\<lambda>x. (x, if x = k then f' x else f x)) ks"
  by (induction ks) auto

lemma update_tabulate_absent:
  "k \<notin> set ks \<Longrightarrow> AList.update k v (map (\<lambda>x. (x, f x)) ks) = map (\<lambda>x. (x, f x)) ks @ [(k, v)]"
  by (induction ks) auto

lemma count_step_occurrence_pairs:
  assumes "map_of object_prototype (answer_value a) = None"
  shows "count_step (occurrence_pairs vs) a = occurrence_pairs (vs @ [answer_value a])"
proof (cases "answer_value a \<in> set vs")
  case True
  have proto: "answer_value a \<noteq> ''__proto__''"
    using assms by (auto simp: object_prototype_def)
  have "count_step (occurrence_pairs vs) a
          = AList.update (answer_value a) (Count (count_list vs (answer_value a) + 1))
              (occurrence_pairs vs)"
    using True proto
    by (simp add: count_step_def Let_def js_get_def js_set_def occurrence_pairs_def map_of_tabulate
                  set_first_occurrences)
  also have "\<dots> = map (\<lambda>x. (x, if x = answer_value a
                                  then Count (count_list vs x + 1)
                                  else Count (count_list vs x))) (first_occurrences vs)"
    unfolding occurrence_pairs_def
    using update_tabulate_present[of "first_occurrences vs" "answer_value a"
            "\<lambda>x. Count (count_list vs x + 1)" "\<lambda>x. Count (count_list vs x)"] True
    by (simp add: distinct_first_occurrences set_first_occurrences)
  also have "\<dots> = occurrence_pairs (vs @ [answer_value a])"
    using True by (auto simp: occurrence_pairs_def first_occurrences_snoc)
  finally show ?thesis .
next
  case False
  have proto: "answer_value a \<noteq> ''__proto__''"
    using assms by (auto simp: object_prototype_def)
  have "count_step (occurrence_pairs vs) a
          = AList.update (answer_value a) (Count 1) (occurrence_pairs vs)"
    using False proto assms
    by (simp add: count_step_def Let_def js_get_def js_set_def occurrence_pairs_def map_of_tabulate
                  set_first_occurrences)
  also have "\<dots> = occurrence_pairs vs @ [(answer_value a, Count 1)]"
    unfolding occurrence_pairs_def
    by (rule update_tabulate_absent) (simp add: set_first_occurrences False)
  also have "\<dots> = occurrence_pairs (vs @ [answer_value a])"
    using False by (auto simp: occurrence_pairs_def first_occurrences_snoc set_first_occurrences)
  finally show ?thesis .
qed

lemma foldl_count_step:
  "list_all (\<lambda>a. map_of object_prototype (answer_value a) = None) as
   \<Longrightarrow> foldl count_step [] as = occurrence_pairs (map answer_value as)"
proof (induction as rule: rev_induct)
  case Nil
  show ?case by (simp add: occurrence_pairs_def first_occurrences_def)
next
  case (snoc a as)
  then show ?case by (simp add: count_step_occurrence_pairs)
qed

text \<open>
  C2, as the claim states it, fails. For the answers \<open>"2", "1", "2"\<close> to a
  \<open>multiple_choice\<close> question the pairs come out as \<open>("1", 1), ("2", 2)\<close>: keys that
  are array indices are enumerated first, in ascending numeric order, so the order
  is not that of first occurrence, which would be \<open>("2", 2), ("1", 1)\<close>.
\<close>

theorem analytics_choice_order_counterexample:
  "getQuestionAnalytics
     (results_s1 [question_of_s1 ''q1'' ''multiple_choice'' True] (answers_to ''q1'' [''2'', ''1'', ''2'']))
     (question_of_s1 ''q1'' ''multiple_choice'' True)
     = Choice [(''1'', Count 1), (''2'', Count 2)]
   \<and> occurrence_pairs [''2'', ''1'', ''2''] = [(''2'', Count 2), (''1'', Count 1)]"
  by code_simp

text \<open>
  C2, amended. For a \<open>multiple_choice\<close> or \<open>dropdown\<close> question whose answer values
  are not names of properties of \<open>Object.prototype\<close>, the result lists each distinct
  answer value once with the number of its occurrences (values that do not occur
  are absent): first the values that are array indices (canonical decimal numerals
  below \<open>2^32 - 1\<close>) in ascending numeric order, then all other values in order of
  first occurrence. When no value is an array index the order is that of first
  occurrence; for the answers \<open>"A", "B", "A"\<close> the result is \<open>("A", 2), ("B", 1)\<close>.
\<close>

theorem analytics_choice_tallies:
  assumes "qu_type q = ''multiple_choice'' \<or> qu_type q = ''dropdown''"
    and "vs = map answer_value (filter (\<lambda>a. question_id a = qu_id q) (sr_answers v))"
    and "list_all (\<lambda>x. map_of object_prototype x = None) vs"
  shows "getQuestionAnalytics v q
           = Choice (sort_key (\<lambda>p. dec_val (fst p))
                       (filter (\<lambda>p. is_array_index (fst p)) (occurrence_pairs vs))
                     @ filter (\<lambda>p. \<not> is_array_index (fst p)) (occurrence_pairs vs))
       \<and> (list_all (\<lambda>x. \<not> is_array_index x) vs
            \<longrightarrow> getQuestionAnalytics v q = Choice (occurrence_pairs vs))"
proof -
  let ?as = "filter (\<lambda>a. question_id a = qu_id q) (sr_answers v)"
  have "list_all (\<lambda>a. map_of object_prototype (answer_value a) = None) ?as"
    using assms(3) unfolding assms(2) by (simp add: list_all_iff)
  then have tallies: "foldl count_step [] ?as = occurrence_pairs vs"
    unfolding assms(2) by (rule foldl_count_step)
  have run: "getQuestionAnalytics v q = Choice (obj_entries (occurrence_pairs vs))"
    using assms(1) tallies by (auto simp: getQuestionAnalytics_def)
  have "obj_entries (occurrence_pairs vs) = occurrence_pairs vs"
    if "list_all (\<lambda>x. \<not> is_array_index x) vs"
  proof -
    have "\<forall>p \<in> set (occurrence_pairs vs). \<not> is_array_index (fst p)"
      using that by (auto simp: occurrence_pairs_def set_first_occurrences list_all_iff)
    then show ?thesis
      by (simp add: obj_entries_def filter_empty_conv filter_id_conv)
  qed
  then show ?thesis
    using run by (simp add: obj_entries_def)
qed

theorem analytics_choice_tallies_witness:
  "(qu_type (question_of_s1 ''q1'' ''multiple_choice'' True) = ''multiple_choice''
      \<or> qu_type (question_of_s1 ''q1'' ''multiple_choice'' True) = ''dropdown'')
   \<and> list_all (\<lambda>x. map_of object_prototype x = None) [''A'', ''B'', ''A'']
   \<and> list_all (\<lambda>x. \<not> is_array_index x) [''A'', ''B'', ''A'']
   \<and> getQuestionAnalytics
        (results_s1 [question_of_s1 ''q1'' ''multiple_choice'' True]
           (answers_to ''q1'' [''A'', ''B'', ''A'']))
        (question_of_s1 ''q1'' ''multiple_choice'' True)
       = Choice [(''A'', Count 2), (''B'', Count 1)]"
proof -
  let ?q = "question_of_s1 ''q1'' ''multiple_choice'' True"
  let ?v = "results_s1 [?q] (answers_to ''q1'' [''A'', ''B'', ''A''])"
  have ty: "qu_type ?q = ''multiple_choice'' \<or> qu_type ?q = ''dropdown''"
    by code_simp
  have vs: "[''A'', ''B'', ''A''] = map answer_value (filter (\<lambda>a. question_id a = qu_id ?q) (sr_answers ?v))"
    by code_simp
  have own: "list_all (\<lambda>x. map_of object_prototype x = None) [''A'', ''B'', ''A'']"
    by code_simp
  have plain: "list_all (\<lambda>x. \<not> is_array_index x) [''A'', ''B'', ''A'']"
    by code_simp
  have pairs: "occurrence_pairs [''A'', ''B'', ''A''] = [(''A'', Count 2), (''B'', Count 1)]"
    by code_simp
  have "getQuestionAnalytics ?v ?q = Choice (occurrence_pairs [''A'', ''B'', ''A''])"
    using conjunct2[OF analytics_choice_tallies[OF ty vs own]] plain by blast
  then show ?thesis
    using ty own plain pairs by simp
qed


section \<open>Results Aggregator: export\<close>






section \<open>Rounding to binary64\<close>

lemma bit_length_bounds:
  "0 < n \<Longrightarrow> 2 ^ (bit_length n - 1) \<le> n \<and> n < 2 ^ bit_length n"
proof (induction n rule: bit_length.induct)
  case (1 n)
  show ?case
  proof (cases "n = 1")
    case True
    then show ?thesis
      by (simp add: bit_length.simps[of 1] bit_length.simps[of 0])
  next
    case False
    with "1.prems" have half: "0 < n div 2"
      by simp
    have unfold: "bit_length n = Suc (bit_length (n div 2))"
      using "1.prems" by (subst bit_length.simps) simp
    have pos: "0 < bit_length (n div 2)"
      using half by (subst bit_length.simps) simp
    from "1.IH" "1.prems" half
    have ih: "2 ^ (bit_length (n div 2) - 1) \<le> n div 2" "n div 2 < 2 ^ bit_length (n div 2)"
      by auto
    have "(2::int) ^ bit_length (n div 2) = 2 * 2 ^ (bit_length (n div 2) - 1)"
      using pos by (cases "bit_length (n div 2)") simp_all
    then have lower: "2 ^ bit_length (n div 2) \<le> n"
      using ih(1) by linarith
    have upper: "n < 2 * 2 ^ bit_length (n div 2)"
      using ih(2) by linarith
    show ?thesis
      using lower upper unfold by simp
  qed
qed

lemma bit_length_pos: "0 < n \<Longrightarrow> 0 < bit_length n"
  by (subst bit_length.simps) simp

lemma round_half_even_error: "\<bar>of_int (round_half_even x) - x\<bar> \<le> 1 / 2"
proof -
  define f where "f = \<lfloor>x\<rfloor>"
  have lo: "of_int f \<le> x" and hi: "x < of_int f + 1"
    unfolding f_def by linarith+
  consider "x - of_int f < 1 / 2" | "1 / 2 < x - of_int f" | "x - of_int f = 1 / 2"
    by linarith
  then show ?thesis
  proof cases
    case 1
    then have "round_half_even x = f"
      by (simp add: round_half_even_def f_def)
    then show ?thesis
      using lo 1 by simp
  next
    case 2
    then have "round_half_even x = f + 1"
      by (simp add: round_half_even_def f_def)
    then show ?thesis
      using hi 2 by simp
  next
    case 3
    then have "round_half_even x = f \<or> round_half_even x = f + 1"
      by (simp add: round_half_even_def f_def Let_def)
    then show ?thesis
      using 3 by auto
  qed
qed

lemma round_half_even_of_int [simp]: "round_half_even (of_int m) = m"
  by (simp add: round_half_even_def)

lemma round_half_even_mono: "x \<le> y \<Longrightarrow> round_half_even x \<le> round_half_even y"
proof -
  assume le: "x \<le> y"
  have fl: "\<lfloor>x\<rfloor> \<le> \<lfloor>y\<rfloor>"
    using le by (rule floor_mono)
  show ?thesis
  proof (cases "\<lfloor>x\<rfloor> = \<lfloor>y\<rfloor>")
    case True
    then have "x - of_int \<lfloor>x\<rfloor> \<le> y - of_int \<lfloor>y\<rfloor>"
      using le by simp
    then show ?thesis
      using True unfolding round_half_even_def Let_def by auto
  next
    case False
    then have "\<lfloor>x\<rfloor> + 1 \<le> \<lfloor>y\<rfloor>"
      using fl by linarith
    moreover have "round_half_even x \<le> \<lfloor>x\<rfloor> + 1"
      unfolding round_half_even_def Let_def by auto
    moreover have "\<lfloor>y\<rfloor> \<le> round_half_even y"
      unfolding round_half_even_def Let_def by auto
    ultimately show ?thesis
      by linarith
  qed
qed

lemma round_half_even_nonneg: "0 \<le> x \<Longrightarrow> 0 \<le> round_half_even x"
  using round_half_even_mono[of 0 x] round_half_even_of_int[of 0] by simp


lemma binade_bounds:
  assumes "x \<noteq> 0"
  shows "2 ^ 52 \<le> \<bar>x\<bar> * 2 powi binade x" and "\<bar>x\<bar> * 2 powi binade x < 2 ^ 53"
proof -
  define p where "p = fst (quotient_of \<bar>x\<bar>)"
  define q where "q = snd (quotient_of \<bar>x\<bar>)"
  define t where "t = 53 - (int (bit_length p) - int (bit_length q))"
  have pq: "quotient_of \<bar>x\<bar> = (p, q)"
    by (simp add: p_def q_def)
  have q_pos: "0 < q"
    using pq by (rule quotient_of_denom_pos)
  have frac: "\<bar>x\<bar> = of_int p / of_int q"
    using pq by (rule quotient_of_div)
  have p_pos: "0 < p"
  proof (rule ccontr)
    assume "\<not> 0 < p"
    then have "of_int p / (of_int q :: rat) \<le> 0"
      using q_pos by (simp add: divide_le_0_iff)
    then show False
      using frac assms by simp
  qed
  define P Q a b where "P = (of_int p :: rat)" and "Q = (of_int q :: rat)"
    and "a = (2::rat) ^ bit_length p" and "b = (2::rat) ^ bit_length q"
  have a2: "a = 2 * 2 ^ (bit_length p - 1)"
    using bit_length_pos[OF p_pos] by (cases "bit_length p") (simp_all add: a_def)
  have b2: "b = 2 * 2 ^ (bit_length q - 1)"
    using bit_length_pos[OF q_pos] by (cases "bit_length q") (simp_all add: b_def)
  have "(of_int (2 ^ (bit_length p - 1)) :: rat) \<le> of_int p"
    using bit_length_bounds[OF p_pos] by (simp only: of_int_le_iff)
  then have Pl: "a \<le> 2 * P"
    by (simp add: a2 P_def)
  have "(of_int p :: rat) < of_int (2 ^ bit_length p)"
    using bit_length_bounds[OF p_pos] by (simp only: of_int_less_iff)
  then have Pu: "P < a"
    by (simp add: a_def P_def)
  have "(of_int (2 ^ (bit_length q - 1)) :: rat) \<le> of_int q"
    using bit_length_bounds[OF q_pos] by (simp only: of_int_le_iff)
  then have Ql: "b \<le> 2 * Q"
    by (simp add: b2 Q_def)
  have "(of_int q :: rat) < of_int (2 ^ bit_length q)"
    using bit_length_bounds[OF q_pos] by (simp only: of_int_less_iff)
  then have Qu: "Q < b"
    by (simp add: b_def Q_def)
  have pos: "0 < P" "0 < Q" "0 < a" "0 < b"
    using p_pos q_pos by (simp_all add: P_def Q_def a_def b_def)
  have teq: "t = int (53 + bit_length q) - int (bit_length p)"
    by (simp add: t_def)
  have "(2::rat) powi t = 2 powi int (53 + bit_length q) / 2 powi int (bit_length p)"
    unfolding teq by (rule power_int_diff) simp
  also have "\<dots> = 2 ^ (53 + bit_length q) / 2 ^ bit_length p"
    by (simp only: power_int_of_nat)
  also have "\<dots> = 2 ^ 53 * b / a"
    by (simp add: a_def b_def power_add)
  finally have scale: "(2::rat) powi t = 2 ^ 53 * b / a" .
  have scaled: "\<bar>x\<bar> * 2 powi t = 2 ^ 53 * (P * b) / (Q * a)"
    by (simp add: frac scale P_def Q_def)
  have "Q * a < b * a"
    using Qu pos by (simp add: mult_strict_right_mono)
  also have "b * a \<le> b * (2 * P)"
    using Pl pos by (simp add: mult_left_mono)
  finally have low: "Q * a < 2 * (P * b)"
    by (simp add: mult.commute mult.left_commute)
  have "P * b < a * b"
    using Pu pos by (simp add: mult_strict_right_mono)
  also have "a * b \<le> a * (2 * Q)"
    using Ql pos by (simp add: mult_left_mono)
  finally have high: "P * b < 2 * (Q * a)"
    by (simp add: mult.commute mult.left_commute)
  have Qa: "0 < Q * a"
    using pos by simp
  have lower: "2 ^ 52 < \<bar>x\<bar> * 2 powi t"
    unfolding scaled using low Qa by (simp add: pos_less_divide_eq)
  have upper: "\<bar>x\<bar> * 2 powi t < 2 ^ 54"
    unfolding scaled using high Qa by (simp add: pos_divide_less_eq)
  have step: "(2::rat) powi (t - 1) = 2 powi t / 2"
    by (simp add: power_int_diff)
  have binade: "binade x = (if \<bar>x\<bar> * 2 powi t < 2 ^ 53 then t else t - 1)"
    by (simp add: binade_def Let_def p_def q_def t_def)
  show "2 ^ 52 \<le> \<bar>x\<bar> * 2 powi binade x"
    using lower by (simp add: binade step)
  show "\<bar>x\<bar> * 2 powi binade x < 2 ^ 53"
    using upper by (simp add: binade step)
qed

lemma binary64_scaled:
  "x \<noteq> 0 \<Longrightarrow> binary64 x = of_int (round_half_even (x * 2 powi binade x)) / 2 powi binade x"
  by (simp add: binary64_def)

lemma binary64_error: "\<bar>binary64 x - x\<bar> \<le> \<bar>x\<bar> / 2 ^ 53"
proof (cases "x = 0")
  case True
  then show ?thesis by (simp add: binary64_def)
next
  case False
  define s where "s = (2::rat) powi binade x"
  have s_pos: "0 < s"
    by (simp add: s_def)
  have "binary64 x - x = (of_int (round_half_even (x * s)) - x * s) / s"
    using False s_pos by (simp add: binary64_scaled s_def field_simps)
  then have "\<bar>binary64 x - x\<bar> = \<bar>of_int (round_half_even (x * s)) - x * s\<bar> / s"
    using s_pos by (simp add: abs_divide)
  also have "\<dots> \<le> (1 / 2) / s"
    by (rule divide_right_mono[OF round_half_even_error]) (simp add: s_pos less_imp_le)
  also have "\<dots> \<le> \<bar>x\<bar> / 2 ^ 53"
  proof -
    have "2 ^ 52 \<le> \<bar>x\<bar> * s"
      using binade_bounds(1)[OF False] by (simp add: s_def)
    then show ?thesis
      using s_pos by (simp add: field_simps)
  qed
  finally show ?thesis .
qed

lemma binary64_nonneg: "0 \<le> x \<Longrightarrow> 0 \<le> binary64 x"
  by (cases "x = 0") (simp_all add: binary64_def round_half_even_nonneg)

lemma powi_small: "t < 0 \<Longrightarrow> (2::rat) powi t \<le> 1 / 2"
  using power_int_increasing[of t "-1" "2::rat"] by simp

lemma powi_nat: "0 \<le> t \<Longrightarrow> (2::rat) powi t = of_int (2 ^ nat t)"
  by (simp add: power_int_def)

lemma binary64_le_int:
  assumes "0 < x" and "x \<le> of_int B" and "of_int B \<le> (2::rat) ^ 52"
  shows "binary64 x \<le> of_int B"
proof -
  define t where "t = binade x"
  define s where "s = (2::rat) powi t"
  have s_pos: "0 < s"
    by (simp add: s_def)
  have "x \<le> 2 ^ 52"
    using assms(2,3) by linarith
  moreover have "2 ^ 52 \<le> x * s"
    using binade_bounds(1)[of x] assms(1) by (simp add: s_def t_def)
  ultimately have "x * 1 \<le> x * s"
    by linarith
  then have "1 \<le> s"
    using assms(1) by (simp only: mult_le_cancel_left_pos)
  then have "0 \<le> t"
    using powi_small[of t] by (cases "t < 0") (simp_all add: s_def)
  then have s_int: "s = of_int (2 ^ nat t)"
    unfolding s_def by (rule powi_nat)
  have "x * s \<le> of_int B * s"
    using assms(2) s_pos by (simp add: mult_right_mono)
  also have "\<dots> = of_int (B * 2 ^ nat t)"
    by (simp add: s_int)
  finally have "x * s \<le> of_int (B * 2 ^ nat t)" .
  from round_half_even_mono[OF this] have "round_half_even (x * s) \<le> B * 2 ^ nat t"
    by (simp only: round_half_even_of_int)
  then have "(of_int (round_half_even (x * s)) :: rat) \<le> of_int (B * 2 ^ nat t)"
    by (simp only: of_int_le_iff)
  then have "of_int (round_half_even (x * s)) / s \<le> of_int (B * 2 ^ nat t) / s"
    using s_pos by (simp add: divide_right_mono)
  also have "\<dots> = of_int B"
    using s_pos by (simp add: s_int)
  finally show ?thesis
    using assms(1) by (simp add: binary64_scaled s_def t_def)
qed

lemma binary64_of_int:
  assumes "\<bar>n\<bar> < 2 ^ 53"
  shows "binary64 (of_int n) = of_int n"
proof (cases "n = 0")
  case True
  then show ?thesis by (simp add: binary64_def)
next
  case False
  define x where "x = (of_int n :: rat)"
  define t where "t = binade x"
  define s where "s = (2::rat) powi t"
  have x0: "x \<noteq> 0"
    using False by (simp add: x_def)
  have s_pos: "0 < s"
    by (simp add: s_def)
  have "(of_int \<bar>n\<bar> :: rat) < of_int (2 ^ 53)"
    using assms by (simp only: of_int_less_iff)
  then have small: "\<bar>x\<bar> < 2 ^ 53"
    by (simp add: x_def)
  have "2 ^ 52 \<le> \<bar>x\<bar> * s"
    using binade_bounds(1)[OF x0] by (simp add: s_def t_def)
  also have "\<bar>x\<bar> * s < 2 ^ 53 * s"
    using small s_pos by (simp add: mult_strict_right_mono)
  finally have "1 / 2 < s"
    by simp
  then have "0 \<le> t"
    using powi_small[of t] by (cases "t < 0") (simp_all add: s_def)
  then have s_int: "s = of_int (2 ^ nat t)"
    unfolding s_def by (rule powi_nat)
  have "x * s = of_int (n * 2 ^ nat t)"
    by (simp add: x_def s_int)
  then have "round_half_even (x * s) = n * 2 ^ nat t"
    by (simp only: round_half_even_of_int)
  then have "binary64 x = of_int (n * 2 ^ nat t) / s"
    using x0 by (simp add: binary64_scaled s_def t_def)
  also have "\<dots> = x"
    using s_pos by (simp add: s_int x_def)
  finally show ?thesis
    by (simp add: x_def)
qed


lemma num_of_nat_exact: "n < 2 ^ 53 \<Longrightarrow> num_of_nat n = Num (of_nat n)"
proof -
  assume "n < 2 ^ 53"
  then have "int n < 2 ^ 53"
    by (metis of_nat_less_iff of_nat_numeral of_nat_power)
  then have "binary64 (of_int (int n)) = of_int (int n)"
    by (intro binary64_of_int) simp
  then show ?thesis
    by (simp add: num_of_nat_def)
qed

section \<open>Survey Runtime: progress\<close>

lemma progress_range:
  assumes "0 < n" and "k \<le> n" and "n < 2 ^ 53"
  shows "\<exists>r. js_mul (js_div (num_of_nat k) (num_of_nat n)) (Num 100) = Num r
             \<and> 0 \<le> r \<and> r \<le> 100
             \<and> \<bar>r - 100 * of_nat k / of_nat n\<bar> \<le> 25 / 2 ^ 50"
proof -
  define x where "x = (of_nat k :: rat) / of_nat n"
  define y where "y = binary64 x"
  define r where "r = binary64 (y * 100)"
  have x0: "0 \<le> x" and x1: "x \<le> 1"
    using assms by (simp_all add: x_def)
  have run: "js_mul (js_div (num_of_nat k) (num_of_nat n)) (Num 100) = Num r"
    using assms by (simp add: num_of_nat_exact x_def y_def r_def)
  have y0: "0 \<le> y"
    unfolding y_def using x0 by (rule binary64_nonneg)
  have y1: "y \<le> 1"
  proof (cases "x = 0")
    case True
    then show ?thesis by (simp add: y_def binary64_def)
  next
    case False
    then have "binary64 x \<le> of_int 1"
      using x0 x1 by (intro binary64_le_int) simp_all
    then show ?thesis by (simp add: y_def)
  qed
  have r0: "0 \<le> r"
    unfolding r_def using y0 by (intro binary64_nonneg) simp
  have r100: "r \<le> 100"
  proof (cases "y = 0")
    case True
    then show ?thesis by (simp add: r_def binary64_def)
  next
    case False
    then have "binary64 (y * 100) \<le> of_int 100"
      using y0 y1 by (intro binary64_le_int) simp_all
    then show ?thesis by (simp add: r_def)
  qed
  have ey: "\<bar>y - x\<bar> \<le> 1 / 2 ^ 53"
  proof -
    have "\<bar>y - x\<bar> \<le> \<bar>x\<bar> / 2 ^ 53"
      unfolding y_def by (rule binary64_error)
    also have "\<dots> \<le> 1 / 2 ^ 53"
      using x0 x1 by (simp add: divide_right_mono)
    finally show ?thesis .
  qed
  have er: "\<bar>r - y * 100\<bar> \<le> 100 / 2 ^ 53"
  proof -
    have "\<bar>r - y * 100\<bar> \<le> \<bar>y * 100\<bar> / 2 ^ 53"
      unfolding r_def by (rule binary64_error)
    also have "\<dots> \<le> 100 / 2 ^ 53"
      using y0 y1 by (simp add: divide_right_mono)
    finally show ?thesis .
  qed
  define e where "e = (1::rat) / 2 ^ 53"
  have "\<bar>y - x\<bar> \<le> e" and "\<bar>r - y * 100\<bar> \<le> 100 * e"
    using ey er by (simp_all add: e_def)
  then have "\<bar>r - 100 * x\<bar> \<le> 200 * e"
    by linarith
  then have "\<bar>r - 100 * x\<bar> \<le> 25 / 2 ^ 50"
    by (simp add: e_def)
  then show ?thesis
    using run r0 r100 by (auto simp: x_def)
qed

text \<open>
  C4, as the claim states it, fails. With no questions (the state after a load
  that found no survey) \<open>progress\<close> is \<open>0 / 0 * 100\<close>, which is \<open>NaN\<close> and not 0:
  the division is not guarded. And with one of two questions answered it is 50, a
  percentage, not a fraction in \<open>[0, 1]\<close>.
\<close>

theorem progress_without_guard_counterexample:
  "ts_questions (fst (fetchSurvey (new_take_survey ''s1'') empty_store)) = []
   \<and> progress (fst (fetchSurvey (new_take_survey ''s1'') empty_store)) = NaN
   \<and> length (obj_keys (ts_answers one_answer)) = 1
   \<and> length (ts_questions one_answer) = 2
   \<and> progress one_answer = Num 50"
  by code_simp

text \<open>
  C4, amended. \<open>progress\<close> is the percentage \<open>(answered / total) * 100\<close> computed in
  binary64, with no guard on the divisor. With no questions and no answers it is
  \<open>NaN\<close>. With at least one question and no more accumulated keys than questions it
  is a number in \<open>[0, 100]\<close> that differs from \<open>100 * answered / total\<close> by at most
  \<open>25 / 2^50\<close>.
\<close>

theorem progress_percentage:
  "(ts_questions v = [] \<and> ts_answers v = [] \<longrightarrow> progress v = NaN)
   \<and> (0 < length (ts_questions v) \<and> length (ts_questions v) < 2 ^ 53
       \<and> length (obj_keys (ts_answers v)) \<le> length (ts_questions v)
       \<longrightarrow> (\<exists>r. progress v = Num r \<and> 0 \<le> r \<and> r \<le> 100
                 \<and> \<bar>r - 100 * of_nat (length (obj_keys (ts_answers v)))
                             / of_nat (length (ts_questions v))\<bar> \<le> 25 / 2 ^ 50))"
proof (intro conjI impI)
  assume "ts_questions v = [] \<and> ts_answers v = []"
  then show "progress v = NaN"
    by (simp add: progress_def obj_keys_def obj_entries_def num_of_nat_def binary64_def)
next
  assume "0 < length (ts_questions v) \<and> length (ts_questions v) < 2 ^ 53
       \<and> length (obj_keys (ts_answers v)) \<le> length (ts_questions v)"
  then show "\<exists>r. progress v = Num r \<and> 0 \<le> r \<and> r \<le> 100
                 \<and> \<bar>r - 100 * of_nat (length (obj_keys (ts_answers v)))
                             / of_nat (length (ts_questions v))\<bar> \<le> 25 / 2 ^ 50"
    unfolding progress_def by (intro progress_range) simp_all
qed

theorem progress_percentage_witness:
  "ts_questions (fst (fetchSurvey (new_take_survey ''s1'') empty_store)) = []
   \<and> ts_answers (fst (fetchSurvey (new_take_survey ''s1'') empty_store)) = []
   \<and> progress (fst (fetchSurvey (new_take_survey ''s1'') empty_store)) = NaN
   \<and> 0 < length (ts_questions one_answer) \<and> length (ts_questions one_answer) < 2 ^ 53
   \<and> length (obj_keys (ts_answers one_answer)) \<le> length (ts_questions one_answer)
   \<and> (\<exists>r. progress one_answer = Num r \<and> 0 \<le> r \<and> r \<le> 100)"
proof -
  let ?v = "fst (fetchSurvey (new_take_survey ''s1'') empty_store)"
  have none: "ts_questions ?v = []" "ts_answers ?v = []"
    by code_simp+
  have some: "0 < length (ts_questions one_answer)" "length (ts_questions one_answer) < 2 ^ 53"
    "length (obj_keys (ts_answers one_answer)) \<le> length (ts_questions one_answer)"
    by (simp_all add: one_answer_def take_s1_def new_take_survey_def obj_keys_def obj_entries_def)
  have nan: "progress ?v = NaN"
    using conjunct1[OF progress_percentage[of ?v]] none by blast
  have "\<exists>r. progress one_answer = Num r \<and> 0 \<le> r \<and> r \<le> 100
            \<and> \<bar>r - 100 * of_nat (length (obj_keys (ts_answers one_answer)))
                        / of_nat (length (ts_questions one_answer))\<bar> \<le> 25 / 2 ^ 50"
    using conjunct2[OF progress_percentage[of one_answer]] some by blast
  then have "\<exists>r. progress one_answer = Num r \<and> 0 \<le> r \<and> r \<le> 100"
    by blast
  then show ?thesis
    using none nan some by blast
qed


section \<open>Results Aggregator: rating average\<close>

lemma digit_not_other:
  "is_digit c \<Longrightarrow> \<not> is_white_space c \<and> c \<noteq> CHR ''+'' \<and> c \<noteq> CHR ''-''
                 \<and> c \<noteq> CHR ''x'' \<and> c \<noteq> CHR ''X''"
  by (auto simp: is_digit_def is_white_space_def)

lemma parseInt_digits:
  assumes "s \<noteq> []" and "list_all is_digit s"
  shows "parseInt s = Num (binary64 (of_int (dec_val s)))"
proof -
  obtain c cs where s: "s = c # cs"
    using assms(1) by (cases s) auto
  have c: "is_digit c" and cs: "list_all is_digit cs"
    using assms(2) by (simp_all add: s)
  have no_hex: "take 2 s \<noteq> ''0x'' \<and> take 2 s \<noteq> ''0X''"
  proof (cases cs)
    case Nil
    then show ?thesis by (simp add: s)
  next
    case (Cons d ds)
    then have "is_digit d"
      using cs by simp
    then show ?thesis
      using digit_not_other[of d] by (simp add: s Cons)
  qed
  have all: "takeWhile is_digit s = s"
    using assms(2) by (simp add: takeWhile_eq_all_conv list_all_iff)
  have "dropWhile is_white_space s = s"
    using digit_not_other[OF c] by (simp add: s)
  moreover have "take 1 s \<noteq> ''+'' \<and> take 1 s \<noteq> ''-''"
    using digit_not_other[OF c] by (simp add: s)
  ultimately show ?thesis
    using no_hex assms(1) by (simp add: parseInt_def Let_def all)
qed

lemma foldl_digits_nonneg:
  "list_all is_digit s \<Longrightarrow> 0 \<le> a \<Longrightarrow> 0 \<le> foldl (\<lambda>n c. 10 * n + digit_val c) a s"
  by (induction s arbitrary: a) (auto simp: digit_val_def is_digit_def)

lemma dec_val_nonneg: "list_all is_digit s \<Longrightarrow> 0 \<le> dec_val s"
  by (simp add: dec_val_def foldl_digits_nonneg)

lemma sum_dec_val_nonneg:
  "list_all (\<lambda>s. s \<noteq> [] \<and> list_all is_digit s) ss \<Longrightarrow> 0 \<le> sum_list (map dec_val ss)"
  by (induction ss) (auto simp: dec_val_nonneg)

lemma foldl_js_add_digits:
  "list_all (\<lambda>s. s \<noteq> [] \<and> list_all is_digit s) ss \<Longrightarrow> 0 \<le> acc
   \<Longrightarrow> acc + sum_list (map dec_val ss) < 2 ^ 53
   \<Longrightarrow> foldl js_add (Num (of_int acc)) (map parseInt ss)
       = Num (of_int (acc + sum_list (map dec_val ss)))"
proof (induction ss arbitrary: acc)
  case Nil
  then show ?case by simp
next
  case (Cons s ss)
  have s: "s \<noteq> []" "list_all is_digit s" and ss: "list_all (\<lambda>s. s \<noteq> [] \<and> list_all is_digit s) ss"
    using Cons.prems(1) by simp_all
  have d0: "0 \<le> dec_val s"
    using s(2) by (rule dec_val_nonneg)
  have rest: "0 \<le> sum_list (map dec_val ss)"
    using ss by (rule sum_dec_val_nonneg)
  have small: "\<bar>dec_val s\<bar> < 2 ^ 53" "\<bar>acc + dec_val s\<bar> < 2 ^ 53"
    using Cons.prems(2,3) d0 rest by simp_all
  have "js_add (Num (of_int acc)) (parseInt s) = Num (binary64 (of_int (acc + dec_val s)))"
    by (simp add: parseInt_digits[OF s] binary64_of_int[OF small(1)])
  also have "\<dots> = Num (of_int (acc + dec_val s))"
    by (simp only: binary64_of_int[OF small(2)])
  finally have step: "js_add (Num (of_int acc)) (parseInt s) = Num (of_int (acc + dec_val s))" .
  have "foldl js_add (Num (of_int (acc + dec_val s))) (map parseInt ss)
          = Num (of_int (acc + dec_val s + sum_list (map dec_val ss)))"
    using Cons.prems(2,3) d0 ss by (intro Cons.IH) simp_all
  then show ?case
    by (simp add: step add.assoc)
qed

lemma nearest_tenth:
  fixes s :: int and l :: nat
  assumes "0 \<le> s" and "0 < l" and "20 * s < 2 ^ 53"
  shows "\<bar>of_int \<lfloor>10 * binary64 (of_int s / of_nat l) + 1 / 2\<rfloor> / 10 - of_int s / of_nat l\<bar>
           \<le> (1 / 20 :: rat)"
proof -
  define S L where "S = (of_int s :: rat)" and "L = (of_nat l :: rat)"
  define x where "x = S / L"
  define y where "y = binary64 x"
  define m where "m = \<lfloor>10 * y + 1 / 2\<rfloor>"
  define e where "e = 10 * x / 2 ^ 53"
  have L: "0 < L" and S: "0 \<le> S"
    using assms by (simp_all add: S_def L_def)
  have x0: "0 \<le> x"
    using L S by (simp add: x_def)
  have near: "\<bar>of_int m - 10 * y\<bar> \<le> 1 / 2"
    unfolding m_def by linarith
  have "\<bar>y - x\<bar> \<le> \<bar>x\<bar> / 2 ^ 53"
    unfolding y_def by (rule binary64_error)
  then have "10 * \<bar>y - x\<bar> \<le> e"
    using x0 by (simp add: e_def)
  moreover have "\<bar>10 * y - 10 * x\<bar> = 10 * \<bar>y - x\<bar>"
  proof -
    have "10 * y - 10 * x = 10 * (y - x)"
      by (simp add: algebra_simps)
    then show ?thesis
      by (simp only: abs_mult abs_numeral)
  qed
  moreover have "\<bar>(of_int m - 10 * y) + (10 * y - 10 * x)\<bar>
                   \<le> \<bar>of_int m - 10 * y\<bar> + \<bar>10 * y - 10 * x\<bar>"
    by (rule abs_triangle_ineq)
  ultimately have close: "\<bar>of_int m - 10 * x\<bar> \<le> 1 / 2 + e"
    using near by simp
  have "(of_int (20 * s) :: rat) < of_int (2 ^ 53)"
    using assms(3) by (simp only: of_int_less_iff)
  then have "20 * S < 2 ^ 53"
    by (simp add: S_def)
  then have "e * (2 * L) < 1"
    using L by (simp add: e_def x_def field_simps)
  then have e: "2 * L * e < 1"
    by (simp add: mult.commute)
  have "\<bar>of_int m * L - 10 * S\<bar> = \<bar>of_int m - 10 * x\<bar> * L"
    using L by (simp add: x_def abs_mult_pos[symmetric] field_simps)
  also have "\<dots> \<le> (1 / 2 + e) * L"
    using close L by (simp add: mult_right_mono)
  finally have "2 * \<bar>of_int m * L - 10 * S\<bar> < L + 1"
    using e by (simp add: field_simps)
  then have "(of_int (2 * \<bar>m * int l - 10 * s\<bar>) :: rat) < of_int (int l + 1)"
    by (simp add: S_def L_def)
  then have "2 * \<bar>m * int l - 10 * s\<bar> < int l + 1"
    by (simp only: of_int_less_iff)
  then have "2 * \<bar>m * int l - 10 * s\<bar> \<le> int l"
    by simp
  then have "(of_int (2 * \<bar>m * int l - 10 * s\<bar>) :: rat) \<le> of_int (int l)"
    by (simp only: of_int_le_iff)
  then have "2 * \<bar>of_int m * L - 10 * S\<bar> \<le> L"
    by (simp add: S_def L_def)
  moreover have "\<bar>of_int m * L - 10 * S\<bar> = \<bar>of_int m / 10 - x\<bar> * (10 * L)"
    using L by (simp add: x_def abs_mult_pos[symmetric] field_simps)
  ultimately have "\<bar>of_int m / 10 - x\<bar> * (20 * L) \<le> L"
    by simp
  then have "\<bar>of_int m / 10 - x\<bar> \<le> 1 / 20"
    using L by (simp add: field_simps)
  then show ?thesis
    by (simp add: m_def y_def x_def S_def L_def)
qed


lemma rating_average:
  assumes "vs \<noteq> []" and "list_all (\<lambda>s. s \<noteq> [] \<and> list_all is_digit s) vs"
    and "length vs < 2 ^ 53" and "20 * sum_list (map dec_val vs) < 2 ^ 53"
  shows "\<exists>n::nat. toFixed1 (js_div (foldl js_add (Num 0) (map parseInt vs))
                                    (num_of_nat (length vs)))
                     = dec (n div 10) @ ''.'' @ [digit_char (n mod 10)]
                 \<and> \<bar>of_nat n / 10 - of_int (sum_list (map dec_val vs)) / of_nat (length vs)\<bar>
                     \<le> (1 / 20 :: rat)"
proof -
  define s where "s = sum_list (map dec_val vs)"
  define l where "l = length vs"
  define y where "y = binary64 (of_int s / of_nat l)"
  define m where "m = \<lfloor>10 * y + 1 / 2\<rfloor>"
  have s0: "0 \<le> s"
    unfolding s_def using assms(2) by (rule sum_dec_val_nonneg)
  have l0: "0 < l"
    using assms(1) by (simp add: l_def)
  have "foldl js_add (Num (of_int 0)) (map parseInt vs) = Num (of_int (0 + s))"
    unfolding s_def using assms(2,4) s0 by (intro foldl_js_add_digits) (simp_all add: s_def)
  then have total: "foldl js_add (Num 0) (map parseInt vs) = Num (of_int s)"
    by simp
  have count: "num_of_nat (length vs) = Num (of_nat l)"
    using assms(3) by (simp add: num_of_nat_exact l_def)
  have quotient: "js_div (foldl js_add (Num 0) (map parseInt vs)) (num_of_nat (length vs)) = Num y"
    using l0 by (simp add: total count y_def)
  have y0: "0 \<le> y"
    unfolding y_def using s0 by (intro binary64_nonneg) simp
  then have m0: "0 \<le> m"
    by (simp add: m_def)
  have printed: "toFixed1 (Num y) = dec (nat m div 10) @ ''.'' @ [digit_char (nat m mod 10)]"
    using y0 by (simp add: m_def Let_def)
  have "\<bar>of_int m / 10 - of_int s / of_nat l\<bar> \<le> (1 / 20 :: rat)"
    unfolding m_def y_def using s0 l0 assms(4) by (intro nearest_tenth) (simp_all add: s_def)
  then have "\<bar>of_nat (nat m) / 10 - of_int s / of_nat l\<bar> \<le> (1 / 20 :: rat)"
    using m0 by simp
  then show ?thesis
    using printed quotient by (auto simp: s_def l_def)
qed

text \<open>
  C3, as the claim states it, fails. For a \<open>rating\<close> question without answers the
  average is the string \<open>"0"\<close>, not \<open>"0.0"\<close> (the total is 0).
\<close>

theorem analytics_rating_empty_counterexample:
  "getQuestionAnalytics (results_s1 [question_of_s1 ''q1'' ''rating'' True] [])
     (question_of_s1 ''q1'' ''rating'' True) = Rating ''0'' 0
   \<and> Rating ''0'' 0 \<noteq> Rating ''0.0'' 0"
  by code_simp

text \<open>
  C3, amended. For a \<open>rating\<close> question the total is the number of its answers.
  Without answers the average is the string \<open>"0"\<close>. When the answers are decimal
  numerals (the Runtime writes \<open>"1"\<close> to \<open>"5"\<close>), there are fewer than \<open>2^53\<close> of them
  and twenty times their sum is below \<open>2^53\<close>, the average is printed as a number
  with one digit after the point that lies within \<open>1/20\<close> of the exact mean: it is
  the mean rounded to one decimal place (a mean exactly halfway between two tenths
  goes to either of them, since the quotient is rounded to binary64 before
  \<open>toFixed\<close>). For the answers 4, 5, 3 the average is \<open>"4.0"\<close> and the total 3.
\<close>

theorem analytics_rating:
  assumes "qu_type q = ''rating''"
    and "vs = map answer_value (filter (\<lambda>a. question_id a = qu_id q) (sr_answers v))"
  shows "(\<exists>average. getQuestionAnalytics v q = Rating average (length vs))
       \<and> (vs = [] \<longrightarrow> getQuestionAnalytics v q = Rating ''0'' 0)
       \<and> (vs \<noteq> [] \<and> list_all (\<lambda>s. s \<noteq> [] \<and> list_all is_digit s) vs
            \<and> length vs < 2 ^ 53 \<and> 20 * sum_list (map dec_val vs) < 2 ^ 53
          \<longrightarrow> (\<exists>n::nat. getQuestionAnalytics v q
                            = Rating (dec (n div 10) @ ''.'' @ [digit_char (n mod 10)]) (length vs)
                  \<and> \<bar>of_nat n / 10 - of_int (sum_list (map dec_val vs)) / of_nat (length vs)\<bar>
                      \<le> (1 / 20 :: rat)))"
proof -
  have run: "getQuestionAnalytics v q =
      Rating (if length vs > 0
              then toFixed1 (js_div (foldl js_add (Num 0) (map parseInt vs))
                                    (num_of_nat (length vs)))
              else ''0'') (length vs)"
    using assms(1) by (simp add: getQuestionAnalytics_def Let_def assms(2) comp_def)
  have first: "\<exists>average. getQuestionAnalytics v q = Rating average (length vs)"
    using run by blast
  have second: "vs = [] \<longrightarrow> getQuestionAnalytics v q = Rating ''0'' 0"
    using run by simp
  have third: "vs \<noteq> [] \<and> list_all (\<lambda>s. s \<noteq> [] \<and> list_all is_digit s) vs
            \<and> length vs < 2 ^ 53 \<and> 20 * sum_list (map dec_val vs) < 2 ^ 53
          \<longrightarrow> (\<exists>n::nat. getQuestionAnalytics v q
                            = Rating (dec (n div 10) @ ''.'' @ [digit_char (n mod 10)]) (length vs)
                  \<and> \<bar>of_nat n / 10 - of_int (sum_list (map dec_val vs)) / of_nat (length vs)\<bar>
                      \<le> (1 / 20 :: rat))"
  proof
    assume ok: "vs \<noteq> [] \<and> list_all (\<lambda>s. s \<noteq> [] \<and> list_all is_digit s) vs
            \<and> length vs < 2 ^ 53 \<and> 20 * sum_list (map dec_val vs) < 2 ^ 53"
    then obtain n :: nat where n:
      "toFixed1 (js_div (foldl js_add (Num 0) (map parseInt vs)) (num_of_nat (length vs)))
         = dec (n div 10) @ ''.'' @ [digit_char (n mod 10)]"
      "\<bar>of_nat n / 10 - of_int (sum_list (map dec_val vs)) / of_nat (length vs)\<bar> \<le> (1 / 20 :: rat)"
      using rating_average[of vs] by blast
    have "getQuestionAnalytics v q
            = Rating (dec (n div 10) @ ''.'' @ [digit_char (n mod 10)]) (length vs)"
      using run ok n(1) by simp
    with n(2) show "\<exists>n::nat. getQuestionAnalytics v q
                            = Rating (dec (n div 10) @ ''.'' @ [digit_char (n mod 10)]) (length vs)
                  \<and> \<bar>of_nat n / 10 - of_int (sum_list (map dec_val vs)) / of_nat (length vs)\<bar>
                      \<le> (1 / 20 :: rat)"
      by blast
  qed
  show ?thesis
    using first second third by blast
qed

theorem analytics_rating_witness:
  "qu_type (question_of_s1 ''q2'' ''rating'' True) = ''rating''
   \<and> [''4'', ''5'', ''3'']
       = map answer_value (filter (\<lambda>a. question_id a = qu_id (question_of_s1 ''q2'' ''rating'' True))
                             (sr_answers two_question_results))
   \<and> list_all (\<lambda>s. s \<noteq> [] \<and> list_all is_digit s) [''4'', ''5'', ''3'']
   \<and> 20 * sum_list (map dec_val [''4'', ''5'', ''3'']) < 2 ^ 53
   \<and> getQuestionAnalytics two_question_results (question_of_s1 ''q2'' ''rating'' True)
       = Rating ''4.0'' 3
   \<and> (\<exists>n::nat. getQuestionAnalytics two_question_results (question_of_s1 ''q2'' ''rating'' True)
                   = Rating (dec (n div 10) @ ''.'' @ [digit_char (n mod 10)]) 3
               \<and> \<bar>of_nat n / 10 - 4\<bar> \<le> (1 / 20 :: rat))"
proof -
  let ?q = "question_of_s1 ''q2'' ''rating'' True"
  let ?vs = "[''4'', ''5'', ''3'']"
  have ty: "qu_type ?q = ''rating''"
    by code_simp
  have vs: "?vs = map answer_value (filter (\<lambda>a. question_id a = qu_id ?q)
                                      (sr_answers two_question_results))"
    by code_simp
  have digits: "list_all (\<lambda>s. s \<noteq> [] \<and> list_all is_digit s) ?vs"
    by code_simp
  have total: "sum_list (map dec_val ?vs) = 12"
    by code_simp
  have shown: "getQuestionAnalytics two_question_results ?q = Rating ''4.0'' 3"
    by code_simp
  note facts = analytics_rating[OF ty vs]
  have small: "20 * sum_list (map dec_val ?vs) < 2 ^ 53"
    by (simp only: total) simp
  have some: "?vs \<noteq> []" and few: "length ?vs < 2 ^ 53"
    by simp_all
  have bounds: "?vs \<noteq> [] \<and> list_all (\<lambda>s. s \<noteq> [] \<and> list_all is_digit s) ?vs
            \<and> length ?vs < 2 ^ 53 \<and> 20 * sum_list (map dec_val ?vs) < 2 ^ 53"
    using some digits few small by blast
  have mean: "(of_int (sum_list (map dec_val ?vs)) :: rat) / of_nat (3::nat) = 4"
    unfolding total by simp
  have len: "length ?vs = 3"
    by simp
  have "\<exists>n::nat. getQuestionAnalytics two_question_results ?q
                   = Rating (dec (n div 10) @ ''.'' @ [digit_char (n mod 10)]) (length ?vs)
               \<and> \<bar>of_nat n / 10 - of_int (sum_list (map dec_val ?vs)) / of_nat (length ?vs)\<bar>
                   \<le> (1 / 20 :: rat)"
    using conjunct2[OF conjunct2[OF facts]] bounds by blast
  then have near: "\<exists>n::nat. getQuestionAnalytics two_question_results ?q
                   = Rating (dec (n div 10) @ ''.'' @ [digit_char (n mod 10)]) 3
               \<and> \<bar>of_nat n / 10 - 4\<bar> \<le> (1 / 20 :: rat)"
    unfolding len mean .
  show ?thesis
    using ty vs digits small shown near by blast
qed


end
